theory Spec2Isabelle
  imports Main
begin

section \<open>JavaScript values, errors and strings\<close>

text \<open>
  The transaction code is dynamically typed: a field of the creation object may be
  absent, a number, a string or an array, and the RLP codec works on nested arrays of
  hex strings. One datatype covers these values.
\<close>

datatype jsval = Undefined | JNum int | JStr string | JArr "jsval list"

text \<open>
  Every \<^verbatim>\<open>throw new Error(...)\<close> of the source is a branch returning one of these
  values; the names are those of the error taxonomy of the specification.
  \<open>TypeError\<close> is the JavaScript runtime error (a method called on \<^verbatim>\<open>undefined\<close>),
  \<open>RpcError\<close> a rejected call of the node.
\<close>

datatype error =
    MissingFieldError string
  | InvalidFieldFormatError
  | UnsupportedTypeTagError
  | InvalidSignatureFormatError
  | ConflictingFieldError
  | TypeError
  | RpcError

text \<open>JavaScript truthiness, as used by \<^verbatim>\<open>a && b\<close>, \<^verbatim>\<open>a || b\<close> and \<^verbatim>\<open>!a\<close>.\<close>

fun truthy :: "jsval \<Rightarrow> bool" where
  "truthy Undefined = False"
| "truthy (JNum n) = (n \<noteq> 0)"
| "truthy (JStr s) = (s \<noteq> [])"
| "truthy (JArr xs) = True"

definition js_or :: "jsval \<Rightarrow> jsval \<Rightarrow> jsval" where
  "js_or a b = (if truthy a then a else b)"

definition startsWith :: "string \<Rightarrow> string \<Rightarrow> bool" where
  "startsWith s p = (take (length p) s = p)"

definition slice :: "nat \<Rightarrow> string \<Rightarrow> string" where
  "slice n s = drop n s"

definition toLowerCase_char :: "char \<Rightarrow> char" where
  "toLowerCase_char c =
     (case map_of (zip ''ABCDEFGHIJKLMNOPQRSTUVWXYZ'' ''abcdefghijklmnopqrstuvwxyz'') c of
        Some l \<Rightarrow> l
      | None \<Rightarrow> c)"

definition toLowerCase :: "string \<Rightarrow> string" where
  "toLowerCase s = map toLowerCase_char s"

text \<open>
  Array destructuring \<^verbatim>\<open>const [a, b, ...] = v\<close>: an array gives its elements, a string
  its characters, a missing position \<^verbatim>\<open>undefined\<close>; a value that is not iterable
  raises.
\<close>

fun js_iter :: "jsval \<Rightarrow> error + jsval list" where
  "js_iter (JArr xs) = Inr xs"
| "js_iter (JStr s) = Inr (map (\<lambda>c. JStr [c]) s)"
| "js_iter v = Inl TypeError"

definition js_nth :: "jsval list \<Rightarrow> nat \<Rightarrow> jsval" where
  "js_nth xs i = (if i < length xs then xs ! i else Undefined)"

section \<open>Helpers of caver-utils and eth-lib\<close>

definition isHexDigit :: "char \<Rightarrow> bool" where
  "isHexDigit c = (c \<in> set ''0123456789abcdefABCDEF'')"

definition isLowerHexDigit :: "char \<Rightarrow> bool" where
  "isLowerHexDigit c = (c \<in> set ''0123456789abcdef'')"

text \<open>
  Modelled from the spec: \<^verbatim>\<open>utils.addHexPrefix\<close> is not among the sources. The wire
  format is a "hex string beginning with 0x"; the helper puts the prefix in front of a
  string that lacks it.
\<close>

definition addHexPrefix :: "string \<Rightarrow> string" where
  "addHexPrefix s = (if startsWith s ''0x'' then s else ''0x'' @ s)"

text \<open>
  Modelled from the spec: \<^verbatim>\<open>utils.isHex\<close> is not among the sources. "All hex-bearing
  fields must be valid hex strings": a string made of the prefix 0x and hexadecimal
  digits.
\<close>

fun isHex :: "jsval \<Rightarrow> bool" where
  "isHex (JStr s) = (startsWith s ''0x'' \<and> list_all isHexDigit (slice 2 s))"
| "isHex v = False"

text \<open>
  Modelled from the spec: \<^verbatim>\<open>utils.toHex\<close> is not among the sources. It gives the hex
  string of a value; a valid hex string is its own hex string, anything else is
  malformed.
\<close>

definition toHex :: "jsval \<Rightarrow> error + string" where
  "toHex v = (case v of JStr s \<Rightarrow> if isHex v then Inr s else Inl InvalidFieldFormatError
              | _ \<Rightarrow> Inl InvalidFieldFormatError)"

text \<open>Leading zero bytes of a digit string: pairs of the digit 0.\<close>

fun stripZeroBytes :: "string \<Rightarrow> string" where
  "stripZeroBytes (a # b # r) =
     (if a = CHR ''0'' \<and> b = CHR ''0'' then stripZeroBytes r else a # b # r)"
| "stripZeroBytes s = s"

definition padEven :: "string \<Rightarrow> string" where
  "padEven ds = (if even (length ds) then ds else CHR ''0'' # ds)"

text \<open>
  Modelled from the spec: \<^verbatim>\<open>utils.trimLeadingZero\<close> is not among the sources.
  "Integers decoded from RLP with leading zero bytes must be normalized (leading zero
  bytes stripped) before being stored". A value that is not a prefixed string is left
  as it is.
\<close>

fun trimLeadingZero :: "jsval \<Rightarrow> jsval" where
  "trimLeadingZero (JStr s) =
     (if startsWith s ''0x'' then JStr (''0x'' @ stripZeroBytes (slice 2 s)) else JStr s)"
| "trimLeadingZero v = v"

text \<open>Hexadecimal digits of a natural number, most significant first.\<close>

definition hexDigit :: "nat \<Rightarrow> char" where
  "hexDigit d = ''0123456789abcdef'' ! (d mod 16)"

fun hexOfNat :: "nat \<Rightarrow> string" where
  "hexOfNat n = (if n < 16 then [hexDigit n] else hexOfNat (n div 16) @ [hexDigit (n mod 16)])"

text \<open>
  Modelled from the spec: \<^verbatim>\<open>utils.numberToHex\<close> is not among the sources. The integer
  fields are "unsigned integers represented as minimal-length big-endian byte strings
  (no leading zero byte, empty string represents zero)"; a value that is neither an
  unsigned number nor a hex string is malformed.
\<close>

fun numberToHex :: "jsval \<Rightarrow> error + string" where
  "numberToHex (JNum n) =
     (if 0 \<le> n then Inr (''0x'' @ stripZeroBytes (padEven (hexOfNat (nat n))))
      else Inl InvalidFieldFormatError)"
| "numberToHex (JStr s) =
     (if isHex (JStr s) then Inr (''0x'' @ stripZeroBytes (padEven (toLowerCase (slice 2 s))))
      else Inl InvalidFieldFormatError)"
| "numberToHex v = Inl InvalidFieldFormatError"

text \<open>
  Modelled from the spec: \<^verbatim>\<open>Bytes.fromNat\<close> of eth-lib is not among the sources. The
  field codec helpers turn "integers to minimal big-endian byte strings" before they
  enter an encoding list: whole bytes, no leading zero byte, the empty string for zero.
\<close>

definition fromNat :: "string \<Rightarrow> string" where
  "fromNat bn = ''0x'' @ stripZeroBytes (padEven (slice 2 bn))"

text \<open>
  The in-memory form of an integer field: the prefix, then an even number of lower-case
  digits that do not start with a zero byte.
\<close>

definition canonicalInt :: "string \<Rightarrow> bool" where
  "canonicalInt s =
     (startsWith s ''0x'' \<and> list_all isLowerHexDigit (slice 2 s) \<and> even (length (slice 2 s))
      \<and> \<not> startsWith (slice 2 s) ''00'')"

section \<open>External collaborators\<close>

text \<open>
  The RLP codec of eth-lib and the table of type tags are consumed, not defined, by the
  transaction code; they are parameters of the model. \<open>TxTypeChainDataAnchoring\<close> is
  the entry of \<^verbatim>\<open>TX_TYPE_TAG\<close> for this variant.
\<close>

record env =
  TxTypeChainDataAnchoring :: string
  RLP_encode :: "jsval \<Rightarrow> string"
  RLP_decode :: "string \<Rightarrow> jsval"

section \<open>The creation object and the transaction\<close>

record createTxObj =
  o_from :: jsval
  o_nonce :: jsval
  o_gas :: jsval
  o_gasPrice :: jsval
  o_chainId :: jsval
  o_input :: jsval
  o_data :: jsval
  o_signatures :: jsval

record signatureData =
  sig_v :: string
  sig_r :: string
  sig_s :: string

text \<open>
  The instance: \<open>None\<close> is a field that is still \<^verbatim>\<open>undefined\<close>.
\<close>

record transaction =
  tx_from :: "string option"
  tx_nonce :: "string option"
  tx_gas :: "string option"
  tx_gasPrice :: "string option"
  tx_chainId :: "string option"
  tx_input :: "string option"
  tx_signatures :: "signatureData list"

subsection \<open>Decoding the raw string into a creation object\<close>

text \<open>The function \<^verbatim>\<open>_decode\<close> of chainDataAnchoring.js.\<close>

definition decode_fields :: "env \<Rightarrow> string \<Rightarrow> error + createTxObj" where
  "decode_fields E rlpEncoded =
     (let rlpEncoded = addHexPrefix rlpEncoded in
      if \<not> startsWith rlpEncoded (TxTypeChainDataAnchoring E) then Inl UnsupportedTypeTagError
      else
        let typeDettached = ''0x'' @ slice 4 rlpEncoded in
        case js_iter (RLP_decode E typeDettached) of
          Inl e \<Rightarrow> Inl e
        | Inr xs \<Rightarrow>
            Inr \<lparr> o_from = js_nth xs 3,
                  o_nonce = trimLeadingZero (js_nth xs 0),
                  o_gas = trimLeadingZero (js_nth xs 2),
                  o_gasPrice = trimLeadingZero (js_nth xs 1),
                  o_chainId = Undefined,
                  o_input = js_nth xs 4,
                  o_data = Undefined,
                  o_signatures = js_nth xs 5 \<rparr>)"

subsection \<open>Setters\<close>

definition ebind :: "error + 'a \<Rightarrow> ('a \<Rightarrow> error + 'b) \<Rightarrow> error + 'b" where
  "ebind m f = (case m of Inl e \<Rightarrow> Inl e | Inr x \<Rightarrow> f x)"

text \<open>The setter \<^verbatim>\<open>set gasPrice(g)\<close> of chainDataAnchoring.js.\<close>

definition set_gasPrice :: "jsval \<Rightarrow> transaction \<Rightarrow> error + transaction" where
  "set_gasPrice g tx = ebind (numberToHex g) (\<lambda>h. Inr (tx\<lparr>tx_gasPrice := Some h\<rparr>))"

text \<open>The setter \<^verbatim>\<open>set input(input)\<close> of chainDataAnchoring.js.\<close>

definition set_input :: "jsval \<Rightarrow> transaction \<Rightarrow> error + transaction" where
  "set_input inp tx =
     (if \<not> truthy inp \<or> \<not> isHex inp then Inl InvalidFieldFormatError
      else ebind (toHex inp) (\<lambda>h. Inr (tx\<lparr>tx_input := Some h\<rparr>)))"

text \<open>
  Modelled from the spec: the nonce setter of abstractTransaction.js is not among the
  sources. The envelope "validates/normalizes fields" at the point of assignment; the
  nonce is stored like the gas price above, as a minimal-length byte string.
\<close>

definition set_nonce :: "jsval \<Rightarrow> transaction \<Rightarrow> error + transaction" where
  "set_nonce n tx = ebind (numberToHex n) (\<lambda>h. Inr (tx\<lparr>tx_nonce := Some h\<rparr>))"

text \<open>
  Modelled from the spec: the gas setter of abstractTransaction.js is not among the
  sources; the gas is stored as a minimal-length byte string.
\<close>

definition set_gas :: "jsval \<Rightarrow> transaction \<Rightarrow> error + transaction" where
  "set_gas g tx = ebind (numberToHex g) (\<lambda>h. Inr (tx\<lparr>tx_gas := Some h\<rparr>))"

text \<open>
  Modelled from the spec: the chain id setter of abstractTransaction.js is not among the
  sources; the chain id is stored as a minimal-length byte string.
\<close>

definition set_chainId :: "jsval \<Rightarrow> transaction \<Rightarrow> error + transaction" where
  "set_chainId c tx = ebind (numberToHex c) (\<lambda>h. Inr (tx\<lparr>tx_chainId := Some h\<rparr>))"

text \<open>
  Modelled from the spec: \<^verbatim>\<open>utils.isAddress\<close> is not among the sources. An address is
  a "20-byte value" as a hex string: the prefix and forty digits.
\<close>

definition isAddress :: "jsval \<Rightarrow> bool" where
  "isAddress v = (case v of JStr s \<Rightarrow> isHex v \<and> length s = 42 | _ \<Rightarrow> False)"

text \<open>
  Modelled from the spec: the sender setter of abstractTransaction.js is not among the
  sources. The sender is "represented as lower-case hex string", and "invalid hex is
  rejected at the point of assignment".
\<close>

definition set_from :: "jsval \<Rightarrow> transaction \<Rightarrow> error + transaction" where
  "set_from a tx =
     (case a of
        JStr s \<Rightarrow> if isAddress a then Inr (tx\<lparr>tx_from := Some (toLowerCase s)\<rparr>)
                  else Inl InvalidFieldFormatError
      | _ \<Rightarrow> Inl InvalidFieldFormatError)"

text \<open>
  Modelled from the spec: signatureData.js is not among the sources. A signature is a
  triple (recovery id, r, s) of hex strings; its \<^verbatim>\<open>encode()\<close> is the triple as a
  list.
\<close>

definition sig_encode :: "signatureData \<Rightarrow> jsval" where
  "sig_encode sg = JArr [JStr (sig_v sg), JStr (sig_r sg), JStr (sig_s sg)]"

text \<open>
  Modelled from the spec: the constructor of a signature from a list is not among the
  sources. A list of three hex strings is a triple; any other shape is malformed.
\<close>

fun toSignatureData :: "jsval \<Rightarrow> error + signatureData" where
  "toSignatureData (JArr [JStr v, JStr r, JStr s]) =
     (if isHex (JStr v) \<and> isHex (JStr r) \<and> isHex (JStr s)
      then Inr \<lparr> sig_v = v, sig_r = r, sig_s = s \<rparr>
      else Inl InvalidSignatureFormatError)"
| "toSignatureData v = Inl InvalidSignatureFormatError"

fun toSignatureList :: "jsval list \<Rightarrow> error + signatureData list" where
  "toSignatureList [] = Inr []"
| "toSignatureList (x # xs) =
     ebind (toSignatureData x) (\<lambda>sg. ebind (toSignatureList xs) (\<lambda>sgs. Inr (sg # sgs)))"

text \<open>
  Modelled from the spec: the signature setter of abstractTransaction.js is not among the
  sources. It "accepts a single triple, a list of triples", keeps the order of the
  triples and "fails with InvalidSignatureFormatError on malformed shapes".
\<close>

fun isJStr :: "jsval \<Rightarrow> bool" where
  "isJStr (JStr s) = True"
| "isJStr v = False"

definition toSignatures :: "jsval \<Rightarrow> error + signatureData list" where
  "toSignatures sigs =
     (case sigs of
        JArr xs \<Rightarrow>
          if xs \<noteq> [] \<and> list_all isJStr xs
          then ebind (toSignatureData sigs) (\<lambda>sg. Inr [sg])
          else toSignatureList xs
      | _ \<Rightarrow> Inl InvalidSignatureFormatError)"

definition set_signatures :: "jsval \<Rightarrow> transaction \<Rightarrow> error + transaction" where
  "set_signatures sigs tx = ebind (toSignatures sigs) (\<lambda>sgs. Inr (tx\<lparr>tx_signatures := sgs\<rparr>))"

subsection \<open>Constructors\<close>

text \<open>An assignment guarded by \<^verbatim>\<open>if (v !== undefined)\<close>.\<close>

definition setIfDefined ::
  "(jsval \<Rightarrow> transaction \<Rightarrow> error + transaction) \<Rightarrow>
   jsval \<Rightarrow> transaction \<Rightarrow> error + transaction" where
  "setIfDefined setter v tx = (if v \<noteq> Undefined then setter v tx else Inr tx)"

definition emptyTransaction :: transaction where
  "emptyTransaction =
     \<lparr> tx_from = None, tx_nonce = None, tx_gas = None, tx_gasPrice = None,
       tx_chainId = None, tx_input = None, tx_signatures = [] \<rparr>"

text \<open>
  Modelled from the spec: the constructor of \<^verbatim>\<open>AbstractTransaction\<close> is not among the
  sources. The envelope "holds fields common to every transaction variant" and
  "validates/normalizes fields"; each of the common fields is "optional at
  construction time", and the signature list is "empty until signed". The gas price is
  assigned by the variant.
\<close>

definition AbstractTransaction :: "createTxObj \<Rightarrow> error + transaction" where
  "AbstractTransaction obj =
     ebind (setIfDefined set_from (o_from obj) emptyTransaction) (\<lambda>tx.
     ebind (setIfDefined set_gas (o_gas obj) tx) (\<lambda>tx.
     ebind (setIfDefined set_nonce (o_nonce obj) tx) (\<lambda>tx.
     ebind (setIfDefined set_chainId (o_chainId obj) tx) (\<lambda>tx.
     set_signatures (js_or (o_signatures obj) (JArr [])) tx))))"

text \<open>
  The constructor of \<^verbatim>\<open>ChainDataAnchoring\<close>. Its argument is a raw string or a
  creation object (\<^verbatim>\<open>_.isString\<close> decides).
\<close>

datatype createArg = Raw string | Obj createTxObj

definition ChainDataAnchoring :: "env \<Rightarrow> createArg \<Rightarrow> error + transaction" where
  "ChainDataAnchoring E arg =
     ebind (case arg of Raw s \<Rightarrow> decode_fields E s | Obj obj \<Rightarrow> Inr obj) (\<lambda>createTxObj.
     ebind (AbstractTransaction createTxObj) (\<lambda>tx.
       if truthy (o_input createTxObj) \<and> truthy (o_data createTxObj)
       then Inl ConflictingFieldError
       else
         ebind (set_input (js_or (o_input createTxObj) (o_data createTxObj)) tx) (\<lambda>tx.
           if o_gasPrice createTxObj \<noteq> Undefined then set_gasPrice (o_gasPrice createTxObj) tx
           else Inr tx)))"

text \<open>The static methods \<^verbatim>\<open>create\<close> and \<^verbatim>\<open>decode\<close>.\<close>

definition create :: "env \<Rightarrow> createArg \<Rightarrow> error + transaction" where
  "create E createTxObj = ChainDataAnchoring E createTxObj"

definition decode :: "env \<Rightarrow> string \<Rightarrow> error + transaction" where
  "decode E rlpEncoded = ebind (decode_fields E rlpEncoded) (\<lambda>obj. ChainDataAnchoring E (Obj obj))"

subsection \<open>Validation and encoding\<close>

text \<open>
  Modelled from the spec: \<^verbatim>\<open>validateOptionalValues\<close> of \<^verbatim>\<open>AbstractTransaction\<close> is not
  among the sources. It "fails with a MissingFieldError naming the first unset required
  field among nonce, gas, gasPrice, chainId".
\<close>

definition super_validateOptionalValues :: "transaction \<Rightarrow> error option" where
  "super_validateOptionalValues tx =
     (if tx_nonce tx = None then Some (MissingFieldError ''nonce'')
      else if tx_gas tx = None then Some (MissingFieldError ''gas'')
      else if tx_gasPrice tx = None then Some (MissingFieldError ''gasPrice'')
      else if tx_chainId tx = None then Some (MissingFieldError ''chainId'')
      else None)"

text \<open>The method \<^verbatim>\<open>validateOptionalValues\<close> of chainDataAnchoring.js.\<close>

definition validateOptionalValues :: "transaction \<Rightarrow> error option" where
  "validateOptionalValues tx =
     (case super_validateOptionalValues tx of
        Some e \<Rightarrow> Some e
      | None \<Rightarrow> if tx_gasPrice tx = None then Some (MissingFieldError ''gasPrice'') else None)"

text \<open>
  A field as the expression of the source reads it: \<^verbatim>\<open>Bytes.fromNat(this.nonce)\<close> and
  \<^verbatim>\<open>this.from.toLowerCase()\<close> raise on \<^verbatim>\<open>undefined\<close>, \<^verbatim>\<open>this.input\<close> is passed on as
  it is.
\<close>

definition fromNat_field :: "string option \<Rightarrow> error + jsval" where
  "fromNat_field f = (case f of None \<Rightarrow> Inl TypeError | Some bn \<Rightarrow> Inr (JStr (fromNat bn)))"

definition toLowerCase_field :: "string option \<Rightarrow> error + jsval" where
  "toLowerCase_field f = (case f of None \<Rightarrow> Inl TypeError | Some a \<Rightarrow> Inr (JStr (toLowerCase a)))"

definition js_field :: "string option \<Rightarrow> jsval" where
  "js_field f = (case f of None \<Rightarrow> Undefined | Some s \<Rightarrow> JStr s)"

text \<open>The method \<^verbatim>\<open>getRLPEncoding\<close> of chainDataAnchoring.js.\<close>

definition getRLPEncoding :: "env \<Rightarrow> transaction \<Rightarrow> error + string" where
  "getRLPEncoding E tx =
     (case validateOptionalValues tx of
        Some e \<Rightarrow> Inl e
      | None \<Rightarrow>
          let signatures = map sig_encode (tx_signatures tx) in
          ebind (fromNat_field (tx_nonce tx)) (\<lambda>nonce.
          ebind (fromNat_field (tx_gasPrice tx)) (\<lambda>gasPrice.
          ebind (fromNat_field (tx_gas tx)) (\<lambda>gas.
          ebind (toLowerCase_field (tx_from tx)) (\<lambda>from.
            Inr (TxTypeChainDataAnchoring E @
                 slice 2 (RLP_encode E
                   (JArr [nonce, gasPrice, gas, from, js_field (tx_input tx), JArr signatures]))))))))"

text \<open>The method \<^verbatim>\<open>getCommonRLPEncodingForSignature\<close> of chainDataAnchoring.js.\<close>

definition getCommonRLPEncodingForSignature :: "env \<Rightarrow> transaction \<Rightarrow> error + string" where
  "getCommonRLPEncodingForSignature E tx =
     (case validateOptionalValues tx of
        Some e \<Rightarrow> Inl e
      | None \<Rightarrow>
          ebind (fromNat_field (tx_nonce tx)) (\<lambda>nonce.
          ebind (fromNat_field (tx_gasPrice tx)) (\<lambda>gasPrice.
          ebind (fromNat_field (tx_gas tx)) (\<lambda>gas.
          ebind (toLowerCase_field (tx_from tx)) (\<lambda>from.
            Inr (RLP_encode E
                   (JArr [JStr (TxTypeChainDataAnchoring E), nonce, gasPrice, gas, from,
                          js_field (tx_input tx)])))))))"

subsection \<open>Filling in the optional values\<close>

text \<open>
  The node is reached through \<^verbatim>\<open>getChainId\<close>, \<^verbatim>\<open>suggestedGasPrice\<close> and
  \<^verbatim>\<open>getNonce\<close>; a call either resolves to a value or rejects. The calls that are made
  are part of the result, so that a call that is not made can be told from one that is.
\<close>

record klaytnCall =
  getChainId :: "error + jsval"
  suggestedGasPrice :: "error + jsval"
  getNonce :: "string option \<Rightarrow> error + jsval"

datatype rpc_call = GetChainId | GetGasPrice | GetTransactionCount "string option"

text \<open>
  Modelled from the spec: \<^verbatim>\<open>isNot\<close> of transactionHelper.js is not among the sources;
  it holds of an "unset" field.
\<close>

definition isNot :: "string option \<Rightarrow> bool" where
  "isNot f = (f = None)"

text \<open>
  The method \<^verbatim>\<open>fillTransaction\<close> of chainDataAnchoring.js, in its three steps. The
  array handed to \<^verbatim>\<open>Promise.all\<close> starts a call for each field that is unset and takes
  the present value of the others; \<^verbatim>\<open>Promise.all\<close> rejects when one of the calls
  rejects. The three assignments then run one after another, so an assignment that
  raises leaves the earlier ones in place. The result is the calls made, the instance
  afterwards and the error of a rejected promise.
\<close>

definition fill_calls :: "transaction \<Rightarrow> rpc_call list" where
  "fill_calls tx =
     (if isNot (tx_chainId tx) then [GetChainId] else []) @
     (if isNot (tx_gasPrice tx) then [GetGasPrice] else []) @
     (if isNot (tx_nonce tx) then [GetTransactionCount (tx_from tx)] else [])"

definition fill_resolve :: "klaytnCall \<Rightarrow> transaction \<Rightarrow> error + jsval \<times> jsval \<times> jsval" where
  "fill_resolve K tx =
     ebind (if isNot (tx_chainId tx) then getChainId K else Inr (js_field (tx_chainId tx)))
       (\<lambda>chainId.
     ebind (if isNot (tx_gasPrice tx) then suggestedGasPrice K else Inr (js_field (tx_gasPrice tx)))
       (\<lambda>gasPrice.
     ebind (if isNot (tx_nonce tx) then getNonce K (tx_from tx) else Inr (js_field (tx_nonce tx)))
       (\<lambda>nonce. Inr (chainId, gasPrice, nonce))))"

definition fill_assign :: "jsval \<times> jsval \<times> jsval \<Rightarrow> transaction \<Rightarrow> transaction \<times> error option" where
  "fill_assign vals tx =
     (case vals of (chainId, gasPrice, nonce) \<Rightarrow>
        (case set_chainId chainId tx of
           Inl e \<Rightarrow> (tx, Some e)
         | Inr tx1 \<Rightarrow>
             (case set_gasPrice gasPrice tx1 of
                Inl e \<Rightarrow> (tx1, Some e)
              | Inr tx2 \<Rightarrow>
                  (case set_nonce nonce tx2 of
                     Inl e \<Rightarrow> (tx2, Some e)
                   | Inr tx3 \<Rightarrow> (tx3, None)))))"

definition fillTransaction ::
  "klaytnCall \<Rightarrow> transaction \<Rightarrow> rpc_call list \<times> transaction \<times> error option" where
  "fillTransaction K tx =
     (fill_calls tx,
      case fill_resolve K tx of
        Inl e \<Rightarrow> (tx, Some e)
      | Inr vals \<Rightarrow> fill_assign vals tx)"

section \<open>A reference codec\<close>

text \<open>
  Modelled from the spec: the RLP codec is an external collaborator with
  "Ethereum-style RLP semantics (length-prefixed byte strings and lists)". This instance,
  on hex strings, is used where a theorem is evaluated on a concrete transaction. A byte
  below 0x80 is its own encoding; a string of up to 55 bytes has the prefix 0x80 + length,
  a list of up to 55 bytes of payload the prefix 0xc0 + length, and longer ones carry the
  length of the length.
\<close>

fun js_str_less :: "string \<Rightarrow> string \<Rightarrow> bool" where
  "js_str_less [] [] = False"
| "js_str_less [] (y # ys) = True"
| "js_str_less (x # xs) [] = False"
| "js_str_less (x # xs) (y # ys) =
     ((of_char x :: nat) < of_char y \<or> (x = y \<and> js_str_less xs ys))"

definition uintHex :: "nat \<Rightarrow> string" where
  "uintHex num = padEven (hexOfNat num)"

definition lengthPrefix :: "nat \<Rightarrow> nat \<Rightarrow> string" where
  "lengthPrefix len add =
     (if len < 56 then uintHex (add + len)
      else uintHex (add + length (uintHex len) div 2 + 55) @ uintHex len)"

fun dataTree :: "jsval \<Rightarrow> string" where
  "dataTree (JStr s) =
     (let hex = slice 2 s;
          pre = (if length hex \<noteq> 2 \<or> \<not> js_str_less hex ''80''
                 then lengthPrefix (length hex div 2) 128 else [])
      in pre @ hex)"
| "dataTree (JArr xs) =
     (let hex = concat (map dataTree xs) in lengthPrefix (length hex div 2) 192 @ hex)"
| "dataTree v = []"

text \<open>
  Modelled from the spec: \<^verbatim>\<open>RLP.encode\<close> of eth-lib is not among the sources;
  "encode(nestedByteLists) -> bytes", as a hex string.
\<close>

definition ref_encode :: "jsval \<Rightarrow> string" where
  "ref_encode tree = ''0x'' @ dataTree tree"

definition hexDigitValue :: "char \<Rightarrow> nat" where
  "hexDigitValue c =
     (let n = (of_char c :: nat) in
      if 48 \<le> n \<and> n \<le> 57 then n - 48
      else if 97 \<le> n \<and> n \<le> 102 then n - 87
      else if 65 \<le> n \<and> n \<le> 70 then n - 55
      else 0)"

definition parseInt16 :: "string \<Rightarrow> nat" where
  "parseInt16 ds = foldl (\<lambda>acc c. 16 * acc + hexDigitValue c) 0 ds"

text \<open>The length after a head byte, and the input after the length.\<close>

definition parseLength :: "string \<Rightarrow> nat \<times> string" where
  "parseLength hex =
     (let len = parseInt16 (take 2 hex) mod 64; hex = drop 2 hex in
      if len < 56 then (len, hex)
      else (parseInt16 (take ((len - 55) * 2) hex), drop ((len - 55) * 2) hex))"

text \<open>
  The parser reads one tree from the front of the input and returns the rest; the list
  case reads trees until the input is no longer than what follows the list. The first
  argument bounds the depth of the recursion.
\<close>

fun parseTree :: "nat \<Rightarrow> string \<Rightarrow> (jsval \<times> string) option"
  and parseList :: "nat \<Rightarrow> nat \<Rightarrow> string \<Rightarrow> (jsval list \<times> string) option" where
  "parseTree 0 hex = None"
| "parseTree (Suc fuel) hex =
     (if hex = [] then None
      else
        let head = take 2 hex in
        if js_str_less head ''80'' then Some (JStr (''0x'' @ head), drop 2 hex)
        else if js_str_less head ''c0'' then
          (let (len, rest) = parseLength hex
           in Some (JStr (''0x'' @ take (len * 2) rest), drop (len * 2) rest))
        else
          (let (len, rest) = parseLength hex
           in case parseList fuel (length rest - len * 2) rest of
                None \<Rightarrow> None
              | Some (xs, rest') \<Rightarrow> Some (JArr xs, rest')))"
| "parseList 0 lim hex = None"
| "parseList (Suc fuel) lim hex =
     (if length hex \<le> lim then Some ([], hex)
      else
        case parseTree fuel hex of
          None \<Rightarrow> None
        | Some (x, rest) \<Rightarrow>
            (case parseList fuel lim rest of
               None \<Rightarrow> None
             | Some (xs, rest') \<Rightarrow> Some (x # xs, rest')))"

text \<open>
  Modelled from the spec: \<^verbatim>\<open>RLP.decode\<close> of eth-lib is not among the sources;
  "decode(bytes) -> nestedByteLists". An input that cannot be read gives the empty list.
\<close>

definition ref_decode :: "string \<Rightarrow> jsval" where
  "ref_decode hex =
     (case parseTree (length hex) (slice 2 hex) of Some (t, rest) \<Rightarrow> t | None \<Rightarrow> JArr [])"

text \<open>
  Modelled from the spec: the table \<^verbatim>\<open>TX_TYPE_TAG\<close> is not among the sources. A tag
  is a "fixed byte sequence identifying the variant"; \<^verbatim>\<open>_decode\<close> removes it with
  \<^verbatim>\<open>slice(4)\<close>, so it is the prefix and one byte. The byte 0x48 stands for it here.
\<close>

definition refEnv :: env where
  "refEnv = \<lparr> TxTypeChainDataAnchoring = ''0x48'', RLP_encode = ref_encode,
              RLP_decode = ref_decode \<rparr>"

text \<open>
  A tree of byte strings: nested arrays of hex strings, each with the prefix and an even
  number of digits. These are the values the codec is made for.
\<close>

fun byteTree :: "jsval \<Rightarrow> bool" where
  "byteTree (JStr s) = (startsWith s ''0x'' \<and> even (length (slice 2 s)))"
| "byteTree (JArr xs) = (\<forall>x\<in>set xs. byteTree x)"
| "byteTree v = False"

text \<open>The first byte of a length prefix.\<close>

definition headByte :: "nat \<Rightarrow> nat \<Rightarrow> nat" where
  "headByte len add = (if len < 56 then add + len else add + length (uintHex len) div 2 + 55)"

section \<open>Concrete transactions\<close>

text \<open>Instances on which the theorems below are evaluated.\<close>

definition txSigned :: transaction where
  "txSigned =
     \<lparr> tx_from = Some ''0xa94f5374fce5edbc8e2a8697c15331677e6ebf0b'', tx_nonce = Some ''0x01'',
       tx_gas = Some ''0x0f4240'', tx_gasPrice = Some ''0x05d21dba00'',
       tx_chainId = Some ''0x07e3'', tx_input = Some ''0xf8a6a0'',
       tx_signatures = [\<lparr> sig_v = ''0x0fe9'', sig_r = ''0x1234'', sig_s = ''0x0abc'' \<rparr>] \<rparr>"

definition objValid :: createTxObj where
  "objValid =
     \<lparr> o_from = JStr ''0xA94F5374Fce5edBC8E2a8697C15331677e6EbF0B'', o_nonce = JNum 1,
       o_gas = JStr ''0xf4240'', o_gasPrice = JStr ''0x5d21dba00'', o_chainId = JNum 2019,
       o_input = JStr ''0xf8a6a0'', o_data = Undefined,
       o_signatures = JArr [JStr ''0x0fe9'', JStr ''0x1234'', JStr ''0x0abc''] \<rparr>"

definition txUnsigned :: transaction where
  "txUnsigned = txSigned\<lparr>tx_signatures := []\<rparr>"

definition objConflict :: createTxObj where
  "objConflict = objValid\<lparr>o_data := JStr ''0x01''\<rparr>"

definition objFalsyInput :: createTxObj where
  "objFalsyInput = objValid\<lparr>o_input := JStr [], o_data := JStr ''0xf8a6a0''\<rparr>"

definition objBadFrom :: createTxObj where
  "objBadFrom = objValid\<lparr>o_from := JStr ''0xzz'', o_data := JStr ''0x01''\<rparr>"

text \<open>
  Creation objects, and the instances constructed from them, in which the input or a
  signature component has an odd number of hex digits.
\<close>

definition objOddInput :: createTxObj where
  "objOddInput = objValid\<lparr>o_input := JStr ''0xabc''\<rparr>"

definition txOddInput :: transaction where
  "txOddInput = txSigned\<lparr>tx_input := Some ''0xabc''\<rparr>"

definition objOddSignature :: createTxObj where
  "objOddSignature =
     objValid\<lparr>o_signatures := JArr [JStr ''0x1'', JStr ''0x1234'', JStr ''0x0abc'']\<rparr>"

definition txOddSignature :: transaction where
  "txOddSignature =
     txSigned\<lparr>tx_signatures := [\<lparr> sig_v = ''0x1'', sig_r = ''0x1234'', sig_s = ''0x0abc'' \<rparr>]\<rparr>"

text \<open>
  A raw transaction whose nonce, gas price and gas are written with leading zero bytes
  (0x0001, 0x0000, 0x000f4240).
\<close>

definition rawNonMinimal :: string where
  "rawNonMinimal =
     ''0x48ef82000182000084000f424094a94f5374fce5edbc8e2a8697c15331677e6ebf0b83f8a6a0cac9820fe9821234820abc''"

text \<open>A node that answers every call, and an instance with two fields left to fill.\<close>

definition klaytnCallRef :: klaytnCall where
  "klaytnCallRef =
     \<lparr> getChainId = Inr (JStr ''0x7e3''), suggestedGasPrice = Inr (JNum 1),
       getNonce = (\<lambda>a. Inr (JNum 5)) \<rparr>"

definition txDraft :: transaction where
  "txDraft = txSigned\<lparr>tx_chainId := None, tx_nonce := None\<rparr>"

section \<open>Instances as the setters leave them\<close>

text \<open>
  The fields of an instance are written by the setters only. What they leave behind: an
  integer field, when set, is in the in-memory form; the sender, when set, is an address
  in lower case; the input is a valid hex string; a signature is a triple of hex strings.
\<close>

definition canonicalField :: "string option \<Rightarrow> bool" where
  "canonicalField f = (case f of None \<Rightarrow> True | Some h \<Rightarrow> canonicalInt h)"

definition validSignature :: "signatureData \<Rightarrow> bool" where
  "validSignature sg = (isHex (JStr (sig_v sg)) \<and> isHex (JStr (sig_r sg)) \<and> isHex (JStr (sig_s sg)))"

definition validTransaction :: "transaction \<Rightarrow> bool" where
  "validTransaction tx =
     (canonicalField (tx_nonce tx) \<and> canonicalField (tx_gas tx) \<and>
      canonicalField (tx_gasPrice tx) \<and> canonicalField (tx_chainId tx) \<and>
      (case tx_from tx of None \<Rightarrow> True | Some a \<Rightarrow> isAddress (JStr a) \<and> toLowerCase a = a) \<and>
      (case tx_input tx of None \<Rightarrow> False | Some h \<Rightarrow> isHex (JStr h)) \<and>
      list_all validSignature (tx_signatures tx))"

text \<open>A hex string of whole bytes has an even number of digits after the prefix.\<close>

definition wholeBytes :: "string \<Rightarrow> bool" where
  "wholeBytes h = even (length (slice 2 h))"

definition wholeByteSignature :: "signatureData \<Rightarrow> bool" where
  "wholeByteSignature sg =
     (wholeBytes (sig_v sg) \<and> wholeBytes (sig_r sg) \<and> wholeBytes (sig_s sg))"

text \<open>
  A codec round-trips a tree when the encoding carries the hex prefix and decodes to the
  tree.
\<close>

definition roundTrips :: "env \<Rightarrow> jsval \<Rightarrow> bool" where
  "roundTrips E tree =
     (startsWith (RLP_encode E tree) ''0x'' \<and> RLP_decode E (RLP_encode E tree) = tree)"

section \<open>The variant's part of the signing payload, as the specification words it\<close>

text \<open>
  Modelled from the spec: the payload of a chain-data-anchoring transaction is the
  "input hex byte string only", and the variant's method gives the "payload fields
  only, in canonical order, no type tag". This second definition follows those words; it
  is compared with \<open>getCommonRLPEncodingForSignature\<close>, which follows the source.
\<close>

definition payloadFields_spec :: "transaction \<Rightarrow> jsval list" where
  "payloadFields_spec tx = [js_field (tx_input tx)]"

definition getCommonRLPEncodingForSignature_spec :: "env \<Rightarrow> transaction \<Rightarrow> string" where
  "getCommonRLPEncodingForSignature_spec E tx = RLP_encode E (JArr (payloadFields_spec tx))"

section \<open>Basic lemmas\<close>

declare hexOfNat.simps [simp del]

lemma ebind_Inr_iff: "ebind m f = Inr y \<longleftrightarrow> (\<exists>x. m = Inr x \<and> f x = Inr y)"
  by (cases m) (auto simp: ebind_def)

lemma ebind_Inl_iff: "ebind m f = Inl e \<longleftrightarrow> (m = Inl e \<or> (\<exists>x. m = Inr x \<and> f x = Inl e))"
  by (cases m) (auto simp: ebind_def)

lemma ebind_Inr [simp]: "ebind (Inr x) f = f x"
  by (simp add: ebind_def)

lemma ebind_Inl [simp]: "ebind (Inl e) f = Inl e"
  by (simp add: ebind_def)

subsection \<open>Strings\<close>

lemma prefix_slice: "startsWith s ''0x'' \<Longrightarrow> CHR ''0'' # CHR ''x'' # slice 2 s = s"
proof -
  assume "startsWith s ''0x''"
  then have "take 2 s = ''0x''" by (simp add: startsWith_def numeral_2_eq_2)
  then have "''0x'' @ drop 2 s = s" by (metis append_take_drop_id)
  then show ?thesis by (simp add: slice_def)
qed

lemma startsWith_0x [simp]: "startsWith (CHR ''0'' # CHR ''x'' # s) ''0x''"
  by (simp add: startsWith_def)

lemma slice_0x [simp]: "slice 2 (CHR ''0'' # CHR ''x'' # s) = s"
  by (simp add: slice_def)

lemma startsWith_append: "startsWith (p @ s) p"
  by (simp add: startsWith_def)

lemma slice_append: "slice (length p) (p @ s) = s"
  by (simp add: slice_def)

lemma toLowerCase_char_idem: "toLowerCase_char (toLowerCase_char c) = toLowerCase_char c"
proof (cases "map_of (zip ''ABCDEFGHIJKLMNOPQRSTUVWXYZ'' ''abcdefghijklmnopqrstuvwxyz'') c")
  case None
  then show ?thesis by (simp add: toLowerCase_char_def)
next
  case (Some l)
  then have "l \<in> set ''abcdefghijklmnopqrstuvwxyz''"
    by (meson map_of_SomeD set_zip_rightD)
  then have "l \<notin> set ''ABCDEFGHIJKLMNOPQRSTUVWXYZ''"
    by auto
  then have "map_of (zip ''ABCDEFGHIJKLMNOPQRSTUVWXYZ'' ''abcdefghijklmnopqrstuvwxyz'') l = None"
    by (subst map_of_zip_is_None) simp_all
  with Some show ?thesis by (simp add: toLowerCase_char_def)
qed

lemma toLowerCase_idem: "toLowerCase (toLowerCase s) = toLowerCase s"
  by (simp add: toLowerCase_def toLowerCase_char_idem)

lemma toLowerCase_length [simp]: "length (toLowerCase s) = length s"
  by (simp add: toLowerCase_def)

lemma lower_hex_fix: "isLowerHexDigit c \<Longrightarrow> toLowerCase_char c = c"
proof -
  assume "isLowerHexDigit c"
  then have "c \<notin> set ''ABCDEFGHIJKLMNOPQRSTUVWXYZ''"
    by (auto simp: isLowerHexDigit_def)
  then have "map_of (zip ''ABCDEFGHIJKLMNOPQRSTUVWXYZ'' ''abcdefghijklmnopqrstuvwxyz'') c = None"
    by (subst map_of_zip_is_None) simp_all
  then show ?thesis by (simp add: toLowerCase_char_def)
qed

lemma lower_is_hex: "isLowerHexDigit c \<Longrightarrow> isHexDigit c"
  by (auto simp: isHexDigit_def isLowerHexDigit_def)

lemma lower_hex: 
  assumes "isHexDigit c" shows "isLowerHexDigit (toLowerCase_char c)"
proof -
  from assms have "isLowerHexDigit c \<or> c \<in> set ''ABCDEF''"
    by (auto simp: isHexDigit_def isLowerHexDigit_def)
  then show ?thesis
  proof
    assume "isLowerHexDigit c"
    then show ?thesis by (simp add: lower_hex_fix)
  next
    assume "c \<in> set ''ABCDEF''"
    then have "c = CHR ''A'' \<or> c = CHR ''B'' \<or> c = CHR ''C'' \<or> c = CHR ''D'' \<or> c = CHR ''E''
               \<or> c = CHR ''F''"
      by simp
    then show ?thesis
      by (elim disjE) (simp_all add: toLowerCase_char_def isLowerHexDigit_def)
  qed
qed

lemma toLowerCase_lower_fix: "list_all isLowerHexDigit ds \<Longrightarrow> toLowerCase ds = ds"
  by (induction ds) (simp_all add: toLowerCase_def lower_hex_fix)

lemma toLowerCase_lower: "list_all isHexDigit ds \<Longrightarrow> list_all isLowerHexDigit (toLowerCase ds)"
  by (induction ds) (simp_all add: toLowerCase_def lower_hex)

lemma list_all_lower_hex: "list_all isLowerHexDigit ds \<Longrightarrow> list_all isHexDigit ds"
  by (induction ds) (simp_all add: lower_is_hex)

subsection \<open>Minimal byte strings\<close>

lemma strip_no_zero_byte: "\<not> startsWith (stripZeroBytes ds) ''00''"
  by (induction ds rule: stripZeroBytes.induct) (auto simp: startsWith_def)

lemma strip_even: "even (length ds) \<Longrightarrow> even (length (stripZeroBytes ds))"
  by (induction ds rule: stripZeroBytes.induct) auto

lemma strip_all: "list_all P ds \<Longrightarrow> list_all P (stripZeroBytes ds)"
  by (induction ds rule: stripZeroBytes.induct) auto

lemma strip_fix: "\<not> startsWith ds ''00'' \<Longrightarrow> stripZeroBytes ds = ds"
  by (cases ds rule: stripZeroBytes.cases) (auto simp: startsWith_def)

lemma padEven_even: "even (length (padEven ds))"
  by (simp add: padEven_def)

lemma padEven_all: "P CHR ''0'' \<Longrightarrow> list_all P ds \<Longrightarrow> list_all P (padEven ds)"
  by (simp add: padEven_def)

lemma padEven_fix: "even (length ds) \<Longrightarrow> padEven ds = ds"
  by (simp add: padEven_def)

lemma hexDigit_lower: "isLowerHexDigit (hexDigit d)"
proof -
  have "d mod 16 < length ''0123456789abcdef''" by simp
  then have "''0123456789abcdef'' ! (d mod 16) \<in> set ''0123456789abcdef''"
    by (rule nth_mem)
  then show ?thesis by (simp only: hexDigit_def isLowerHexDigit_def)
qed

lemma hexOfNat_lower: "list_all isLowerHexDigit (hexOfNat n)"
proof (induction n rule: hexOfNat.induct)
  case (1 n)
  then show ?case
    by (subst hexOfNat.simps) (simp add: hexDigit_lower)
qed

lemma zero_lower: "isLowerHexDigit CHR ''0''"
  by (simp add: isLowerHexDigit_def)

lemma minimal_canonical:
  assumes "list_all isLowerHexDigit ds"
  shows "canonicalInt (CHR ''0'' # CHR ''x'' # stripZeroBytes (padEven ds))"
  using assms
  by (simp add: canonicalInt_def strip_all padEven_all zero_lower
      strip_even padEven_even strip_no_zero_byte)

lemma numberToHex_canonical: "numberToHex v = Inr h \<Longrightarrow> canonicalInt h"
proof (cases v)
  case (JNum n)
  assume "numberToHex v = Inr h"
  with JNum show ?thesis
    by (auto simp: minimal_canonical hexOfNat_lower split: if_splits)
next
  case (JStr s)
  assume "numberToHex v = Inr h"
  with JStr show ?thesis
    by (auto simp: minimal_canonical toLowerCase_lower split: if_splits)
qed simp_all

lemma canonical_isHex: "canonicalInt h \<Longrightarrow> isHex (JStr h)"
  by (simp add: canonicalInt_def list_all_lower_hex)

lemma minimal_fix:
  assumes "canonicalInt h"
  shows "CHR ''0'' # CHR ''x'' # stripZeroBytes (padEven (slice 2 h)) = h"
  using assms by (simp add: canonicalInt_def padEven_fix strip_fix prefix_slice)

lemma numberToHex_fix: "canonicalInt h \<Longrightarrow> numberToHex (JStr h) = Inr h"
  using minimal_fix [of h]
  by (simp add: canonical_isHex del: isHex.simps) (simp add: canonicalInt_def toLowerCase_lower_fix)

lemma fromNat_fix: "canonicalInt h \<Longrightarrow> fromNat h = h"
  by (simp add: fromNat_def minimal_fix)

lemma trimLeadingZero_fix: "canonicalInt h \<Longrightarrow> trimLeadingZero (JStr h) = JStr h"
  by (simp add: canonicalInt_def strip_fix prefix_slice)

section \<open>Tag dispatch\<close>

lemma numberToHex_not_tag: "numberToHex v \<noteq> Inl UnsupportedTypeTagError"
  by (cases v) auto

lemma setters_not_tag:
  "set_nonce v tx \<noteq> Inl UnsupportedTypeTagError"
  "set_gas v tx \<noteq> Inl UnsupportedTypeTagError"
  "set_chainId v tx \<noteq> Inl UnsupportedTypeTagError"
  "set_gasPrice v tx \<noteq> Inl UnsupportedTypeTagError"
  "set_from v tx \<noteq> Inl UnsupportedTypeTagError"
  "set_input v tx \<noteq> Inl UnsupportedTypeTagError"
  by (auto simp: set_nonce_def set_gas_def set_chainId_def set_gasPrice_def set_from_def
      set_input_def toHex_def ebind_Inl_iff numberToHex_not_tag split: jsval.splits if_splits)

lemma toSignatureData_not_tag: "toSignatureData v \<noteq> Inl UnsupportedTypeTagError"
  by (cases v rule: toSignatureData.cases) auto

lemma toSignatureList_not_tag: "toSignatureList xs \<noteq> Inl UnsupportedTypeTagError"
  by (induction xs) (auto simp: ebind_Inl_iff toSignatureData_not_tag)

lemma set_signatures_not_tag: "set_signatures v tx \<noteq> Inl UnsupportedTypeTagError"
  by (auto simp: set_signatures_def toSignatures_def ebind_Inl_iff toSignatureData_not_tag
      toSignatureList_not_tag split: jsval.splits)

lemma setIfDefined_not_tag:
  "(\<And>v tx. setter v tx \<noteq> Inl UnsupportedTypeTagError) \<Longrightarrow>
   setIfDefined setter v tx \<noteq> Inl UnsupportedTypeTagError"
  by (simp add: setIfDefined_def)

lemma AbstractTransaction_not_tag: "AbstractTransaction obj \<noteq> Inl UnsupportedTypeTagError"
  by (simp add: AbstractTransaction_def ebind_Inl_iff setIfDefined_not_tag setters_not_tag
      set_signatures_not_tag)

lemma ChainDataAnchoring_Obj_not_tag:
  "ChainDataAnchoring E (Obj obj) \<noteq> Inl UnsupportedTypeTagError"
  by (simp add: ChainDataAnchoring_def ebind_Inl_iff AbstractTransaction_not_tag setters_not_tag)

lemma js_iter_not_tag: "js_iter v \<noteq> Inl UnsupportedTypeTagError"
  by (cases v) auto

lemma decode_fields_tag_iff:
  "decode_fields E raw = Inl UnsupportedTypeTagError \<longleftrightarrow>
   \<not> startsWith (addHexPrefix raw) (TxTypeChainDataAnchoring E)"
  using js_iter_not_tag [of "RLP_decode E (''0x'' @ slice 4 (addHexPrefix raw))"]
  by (auto simp: decode_fields_def Let_def split: sum.splits)

lemma decode_tag_iff:
  "decode E raw = Inl UnsupportedTypeTagError \<longleftrightarrow>
   \<not> startsWith (addHexPrefix raw) (TxTypeChainDataAnchoring E)"
  by (simp add: decode_def ebind_Inl_iff decode_fields_tag_iff ChainDataAnchoring_Obj_not_tag)

lemma ChainDataAnchoring_Raw_tag:
  "\<not> startsWith (addHexPrefix raw) (TxTypeChainDataAnchoring E) \<Longrightarrow>
   ChainDataAnchoring E (Raw raw) = Inl UnsupportedTypeTagError"
proof -
  assume "\<not> startsWith (addHexPrefix raw) (TxTypeChainDataAnchoring E)"
  then have "decode_fields E raw = Inl UnsupportedTypeTagError"
    by (simp add: decode_fields_tag_iff)
  then show ?thesis by (simp add: ChainDataAnchoring_def)
qed

text \<open>
  C4. A raw string whose leading bytes (after the hex prefix has been put in front) are
  not the tag of the variant is refused with \<open>UnsupportedTypeTagError\<close>, by
  \<^verbatim>\<open>_decode\<close>, by \<^verbatim>\<open>decode\<close> and by the constructor alike; and whether a string is
  refused for its tag depends on nothing but its first bytes, as many as the tag has:
  two strings that agree there are both refused or both let through.
\<close>
theorem decode_tag_dispatch:
  "(\<not> startsWith (addHexPrefix raw) (TxTypeChainDataAnchoring E) \<longrightarrow>
      decode E raw = Inl UnsupportedTypeTagError \<and>
      decode_fields E raw = Inl UnsupportedTypeTagError \<and>
      ChainDataAnchoring E (Raw raw) = Inl UnsupportedTypeTagError) \<and>
   (take (length (TxTypeChainDataAnchoring E)) (addHexPrefix raw) =
    take (length (TxTypeChainDataAnchoring E)) (addHexPrefix raw') \<longrightarrow>
      (decode E raw = Inl UnsupportedTypeTagError \<longleftrightarrow>
       decode E raw' = Inl UnsupportedTypeTagError))"
proof (intro conjI impI)
  assume "\<not> startsWith (addHexPrefix raw) (TxTypeChainDataAnchoring E)"
  then show "decode E raw = Inl UnsupportedTypeTagError"
    and "decode_fields E raw = Inl UnsupportedTypeTagError"
    and "ChainDataAnchoring E (Raw raw) = Inl UnsupportedTypeTagError"
    by (simp_all add: decode_tag_iff decode_fields_tag_iff ChainDataAnchoring_Raw_tag)
next
  assume "take (length (TxTypeChainDataAnchoring E)) (addHexPrefix raw) =
          take (length (TxTypeChainDataAnchoring E)) (addHexPrefix raw')"
  then show "decode E raw = Inl UnsupportedTypeTagError \<longleftrightarrow>
             decode E raw' = Inl UnsupportedTypeTagError"
    by (simp add: decode_tag_iff startsWith_def)
qed

theorem decode_tag_dispatch_witness:
  "\<not> startsWith (addHexPrefix ''0x09c0'') (TxTypeChainDataAnchoring refEnv) \<and>
   take (length (TxTypeChainDataAnchoring refEnv)) (addHexPrefix ''0x09c0'') =
   take (length (TxTypeChainDataAnchoring refEnv)) (addHexPrefix ''09ffff'') \<and>
   decode refEnv ''0x09c0'' = Inl UnsupportedTypeTagError \<and>
   decode refEnv ''09ffff'' = Inl UnsupportedTypeTagError"
proof -
  have h1: "\<not> startsWith (addHexPrefix ''0x09c0'') (TxTypeChainDataAnchoring refEnv)"
    by (simp add: addHexPrefix_def startsWith_def refEnv_def)
  have h2: "take (length (TxTypeChainDataAnchoring refEnv)) (addHexPrefix ''0x09c0'') =
            take (length (TxTypeChainDataAnchoring refEnv)) (addHexPrefix ''09ffff'')"
    by (simp add: addHexPrefix_def startsWith_def refEnv_def)
  from h1 h2 decode_tag_dispatch [of "''0x09c0''" refEnv "''09ffff''"]
  show ?thesis by blast
qed

lemma validate_None_iff:
  "validateOptionalValues tx = None \<longleftrightarrow>
   tx_nonce tx \<noteq> None \<and> tx_gas tx \<noteq> None \<and> tx_gasPrice tx \<noteq> None \<and> tx_chainId tx \<noteq> None"
  by (simp add: validateOptionalValues_def super_validateOptionalValues_def)

lemma validate_Some_missing:
  "validateOptionalValues tx = Some e \<Longrightarrow> \<exists>f. e = MissingFieldError f"
  by (auto simp: validateOptionalValues_def super_validateOptionalValues_def split: if_splits)

section \<open>The sender's letter case\<close>

text \<open>
  C10. Two transactions that differ only in the letter case of the sender address have
  the same \<^verbatim>\<open>getRLPEncoding\<close> and the same \<^verbatim>\<open>getCommonRLPEncodingForSignature\<close>
  (the same string, or the same error): both methods lower-case the address when they
  encode.
\<close>
theorem from_case_insensitive:
  "toLowerCase a = toLowerCase b \<Longrightarrow>
   getRLPEncoding E (tx\<lparr>tx_from := Some a\<rparr>) = getRLPEncoding E (tx\<lparr>tx_from := Some b\<rparr>) \<and>
   getCommonRLPEncodingForSignature E (tx\<lparr>tx_from := Some a\<rparr>) =
   getCommonRLPEncodingForSignature E (tx\<lparr>tx_from := Some b\<rparr>)"
  by (simp add: getRLPEncoding_def getCommonRLPEncodingForSignature_def validateOptionalValues_def
      super_validateOptionalValues_def toLowerCase_field_def)

theorem from_case_insensitive_witness:
  "toLowerCase ''0xA94F5374Fce5edBC8E2a8697C15331677e6EbF0B'' =
   toLowerCase ''0xa94f5374fce5edbc8e2a8697c15331677e6ebf0b'' \<and>
   getRLPEncoding refEnv (txSigned\<lparr>tx_from := Some ''0xA94F5374Fce5edBC8E2a8697C15331677e6EbF0B''\<rparr>) =
   getRLPEncoding refEnv (txSigned\<lparr>tx_from := Some ''0xa94f5374fce5edbc8e2a8697c15331677e6ebf0b''\<rparr>) \<and>
   getCommonRLPEncodingForSignature refEnv
     (txSigned\<lparr>tx_from := Some ''0xA94F5374Fce5edBC8E2a8697C15331677e6EbF0B''\<rparr>) =
   getCommonRLPEncodingForSignature refEnv
     (txSigned\<lparr>tx_from := Some ''0xa94f5374fce5edbc8e2a8697c15331677e6ebf0b''\<rparr>)"
proof -
  have h: "toLowerCase ''0xA94F5374Fce5edBC8E2a8697C15331677e6EbF0B'' =
           toLowerCase ''0xa94f5374fce5edbc8e2a8697c15331677e6ebf0b''"
    by (simp add: toLowerCase_def toLowerCase_char_def)
  from h from_case_insensitive [OF h, of refEnv txSigned] show ?thesis by blast
qed

section \<open>The broadcast encoding\<close>

text \<open>
  An instance with every required field and an empty signature list is encoded: the
  method does not look at the length of the list.
\<close>
theorem getRLPEncoding_unsigned_counterexample:
  "tx_signatures txUnsigned = [] \<and>
   getRLPEncoding refEnv txUnsigned =
   Inr ''0x48e5018505d21dba00830f424094a94f5374fce5edbc8e2a8697c15331677e6ebf0b83f8a6a0c0''"
  by code_simp

text \<open>
  C3, as the code has it. \<^verbatim>\<open>getRLPEncoding\<close> fails with a missing-field error whenever
  one of nonce, gas, gasPrice, chainId is unset; with these and the sender set it returns
  the type tag followed by the RLP encoding (without its prefix) of the list nonce,
  gasPrice, gas, sender in lower case, input, signature list. The signature list is
  encoded as it is, the empty one too.
\<close>
theorem getRLPEncoding_composition:
  "(tx_nonce tx = None \<or> tx_gas tx = None \<or> tx_gasPrice tx = None \<or> tx_chainId tx = None \<longrightarrow>
      (\<exists>f. getRLPEncoding E tx = Inl (MissingFieldError f))) \<and>
   (tx_nonce tx = Some n \<and> tx_gas tx = Some g \<and> tx_gasPrice tx = Some p \<and>
    tx_chainId tx = Some c \<and> tx_from tx = Some a \<longrightarrow>
      getRLPEncoding E tx =
      Inr (TxTypeChainDataAnchoring E @
           slice 2 (RLP_encode E
             (JArr [JStr (fromNat n), JStr (fromNat p), JStr (fromNat g), JStr (toLowerCase a),
                    js_field (tx_input tx), JArr (map sig_encode (tx_signatures tx))]))))"
proof (intro conjI impI)
  assume "tx_nonce tx = None \<or> tx_gas tx = None \<or> tx_gasPrice tx = None \<or> tx_chainId tx = None"
  then obtain e where e: "validateOptionalValues tx = Some e"
    using validate_None_iff [of tx] by (cases "validateOptionalValues tx") auto
  then obtain f where "e = MissingFieldError f"
    using validate_Some_missing by blast
  with e show "\<exists>f. getRLPEncoding E tx = Inl (MissingFieldError f)"
    by (simp add: getRLPEncoding_def)
next
  assume a: "tx_nonce tx = Some n \<and> tx_gas tx = Some g \<and> tx_gasPrice tx = Some p \<and>
    tx_chainId tx = Some c \<and> tx_from tx = Some a"
  then have "validateOptionalValues tx = None"
    by (simp add: validate_None_iff)
  with a show "getRLPEncoding E tx =
      Inr (TxTypeChainDataAnchoring E @
           slice 2 (RLP_encode E
             (JArr [JStr (fromNat n), JStr (fromNat p), JStr (fromNat g), JStr (toLowerCase a),
                    js_field (tx_input tx), JArr (map sig_encode (tx_signatures tx))])))"
    by (simp add: getRLPEncoding_def fromNat_field_def toLowerCase_field_def)
qed

theorem getRLPEncoding_composition_witness:
  "(\<exists>f. getRLPEncoding refEnv (txSigned\<lparr>tx_chainId := None\<rparr>) = Inl (MissingFieldError f)) \<and>
   getRLPEncoding refEnv txSigned =
   Inr ''0x48ef018505d21dba00830f424094a94f5374fce5edbc8e2a8697c15331677e6ebf0b83f8a6a0cac9820fe9821234820abc''"
proof -
  have "tx_chainId (txSigned\<lparr>tx_chainId := None\<rparr>) = None" by simp
  then have 1: "\<exists>f. getRLPEncoding refEnv (txSigned\<lparr>tx_chainId := None\<rparr>) = Inl (MissingFieldError f)"
    using getRLPEncoding_composition [where tx = "txSigned\<lparr>tx_chainId := None\<rparr>" and E = refEnv] by blast
  have h: "tx_nonce txSigned = Some ''0x01'' \<and> tx_gas txSigned = Some ''0x0f4240'' \<and>
        tx_gasPrice txSigned = Some ''0x05d21dba00'' \<and> tx_chainId txSigned = Some ''0x07e3'' \<and>
        tx_from txSigned = Some ''0xa94f5374fce5edbc8e2a8697c15331677e6ebf0b''"
    by (simp add: txSigned_def)
  have "getRLPEncoding refEnv txSigned =
      Inr (TxTypeChainDataAnchoring refEnv @
           slice 2 (RLP_encode refEnv
             (JArr [JStr (fromNat ''0x01''), JStr (fromNat ''0x05d21dba00''), JStr (fromNat ''0x0f4240''),
                    JStr (toLowerCase ''0xa94f5374fce5edbc8e2a8697c15331677e6ebf0b''),
                    js_field (tx_input txSigned), JArr (map sig_encode (tx_signatures txSigned))])))"
    using getRLPEncoding_composition [where tx = txSigned and E = refEnv] h by blast
  also have "\<dots> = Inr ''0x48ef018505d21dba00830f424094a94f5374fce5edbc8e2a8697c15331677e6ebf0b83f8a6a0cac9820fe9821234820abc''"
    by code_simp
  finally show ?thesis using 1 by blast
qed

section \<open>The variant's part of the signing payload\<close>

text \<open>
  What the method returns for a filled transaction is the encoding of a list that starts
  with the type tag and goes on with nonce, gas price, gas and sender; it is not the
  encoding of the payload fields alone.
\<close>
theorem getCommonRLPEncodingForSignature_counterexample:
  "getCommonRLPEncodingForSignature refEnv txSigned =
     Inr (RLP_encode refEnv
       (JArr [JStr ''0x48'', JStr ''0x01'', JStr ''0x05d21dba00'', JStr ''0x0f4240'',
              JStr ''0xa94f5374fce5edbc8e2a8697c15331677e6ebf0b'', JStr ''0xf8a6a0''])) \<and>
   getCommonRLPEncodingForSignature refEnv txSigned \<noteq>
     Inr (getCommonRLPEncodingForSignature_spec refEnv txSigned)"
  by code_simp

text \<open>
  C2, as the code has it. For a transaction with all required fields set,
  \<^verbatim>\<open>getCommonRLPEncodingForSignature\<close> returns the RLP encoding of the list type tag,
  nonce, gasPrice, gas, sender in lower case, input: the tag is the first element inside
  the list, and neither the chain id nor the two placeholders are part of it.
\<close>
theorem getCommonRLPEncodingForSignature_composition:
  "tx_nonce tx = Some n \<and> tx_gas tx = Some g \<and> tx_gasPrice tx = Some p \<and>
   tx_chainId tx = Some c \<and> tx_from tx = Some a \<Longrightarrow>
   getCommonRLPEncodingForSignature E tx =
   Inr (RLP_encode E
     (JArr [JStr (TxTypeChainDataAnchoring E), JStr (fromNat n), JStr (fromNat p),
            JStr (fromNat g), JStr (toLowerCase a), js_field (tx_input tx)]))"
  by (simp add: getCommonRLPEncodingForSignature_def validateOptionalValues_def
      super_validateOptionalValues_def fromNat_field_def toLowerCase_field_def)

theorem getCommonRLPEncodingForSignature_composition_witness:
  "tx_nonce txSigned = Some ''0x01'' \<and> tx_gas txSigned = Some ''0x0f4240'' \<and>
   tx_gasPrice txSigned = Some ''0x05d21dba00'' \<and> tx_chainId txSigned = Some ''0x07e3'' \<and>
   tx_from txSigned = Some ''0xa94f5374fce5edbc8e2a8697c15331677e6ebf0b'' \<and>
   getCommonRLPEncodingForSignature refEnv txSigned =
   Inr ''0xe548018505d21dba00830f424094a94f5374fce5edbc8e2a8697c15331677e6ebf0b83f8a6a0''"
proof -
  have h: "tx_nonce txSigned = Some ''0x01'' \<and> tx_gas txSigned = Some ''0x0f4240'' \<and>
        tx_gasPrice txSigned = Some ''0x05d21dba00'' \<and> tx_chainId txSigned = Some ''0x07e3'' \<and>
        tx_from txSigned = Some ''0xa94f5374fce5edbc8e2a8697c15331677e6ebf0b''"
    by (simp add: txSigned_def)
  have "getCommonRLPEncodingForSignature refEnv txSigned =
   Inr (RLP_encode refEnv
     (JArr [JStr (TxTypeChainDataAnchoring refEnv), JStr (fromNat ''0x01''),
            JStr (fromNat ''0x05d21dba00''), JStr (fromNat ''0x0f4240''),
            JStr (toLowerCase ''0xa94f5374fce5edbc8e2a8697c15331677e6ebf0b''),
            js_field (tx_input txSigned)]))"
    using getCommonRLPEncodingForSignature_composition [OF h, of refEnv] .
  also have "\<dots> = Inr ''0xe548018505d21dba00830f424094a94f5374fce5edbc8e2a8697c15331677e6ebf0b83f8a6a0''"
    by code_simp
  finally show ?thesis using h by blast
qed

section \<open>The input setter\<close>

lemma toHex_isHex: "toHex v = Inr h \<Longrightarrow> isHex (JStr h)"
  by (auto simp: toHex_def split: jsval.splits if_splits)

text \<open>
  C6. Assigning a value that is not a valid hex string to the input fails in the setter,
  at once; and after an assignment that succeeded the stored input is a valid hex string.
\<close>
theorem set_input_validates:
  "(\<not> isHex v \<longrightarrow> set_input v tx = Inl InvalidFieldFormatError) \<and>
   (\<forall>tx'. set_input v tx = Inr tx' \<longrightarrow> (\<exists>h. tx_input tx' = Some h \<and> isHex (JStr h)))"
  by (auto simp: set_input_def ebind_Inr_iff simp del: isHex.simps dest: toHex_isHex)

theorem set_input_validates_witness:
  "\<not> isHex (JStr ''0xzz'') \<and> set_input (JStr ''0xzz'') txSigned = Inl InvalidFieldFormatError \<and>
   set_input (JStr ''0xABcd'') txSigned = Inr (txSigned\<lparr>tx_input := Some ''0xABcd''\<rparr>) \<and>
   isHex (JStr ''0xABcd'')"
proof -
  have 1: "\<not> isHex (JStr ''0xzz'')"
    by (simp add: startsWith_def slice_def isHexDigit_def)
  have 2: "set_input (JStr ''0xABcd'') txSigned = Inr (txSigned\<lparr>tx_input := Some ''0xABcd''\<rparr>)"
    by (simp add: set_input_def toHex_def startsWith_def slice_def isHexDigit_def)
  from set_input_validates [of "JStr ''0xzz''" txSigned] 1
  have 3: "set_input (JStr ''0xzz'') txSigned = Inl InvalidFieldFormatError" by blast
  from set_input_validates [of "JStr ''0xABcd''" txSigned] 2
  have "\<exists>h. tx_input (txSigned\<lparr>tx_input := Some ''0xABcd''\<rparr>) = Some h \<and> isHex (JStr h)"
    by blast
  then have 4: "isHex (JStr ''0xABcd'')" by simp
  from 1 2 3 4 show ?thesis by blast
qed

section \<open>The input at construction\<close>

lemma set_input_Inr:
  "set_input v tx = Inr tx' \<Longrightarrow> \<exists>h. tx' = tx\<lparr>tx_input := Some h\<rparr> \<and> isHex (JStr h) \<and> truthy v"
  by (auto simp: set_input_def ebind_Inr_iff simp del: isHex.simps dest: toHex_isHex split: if_splits)

lemma set_gasPrice_input: "set_gasPrice v tx = Inr tx' \<Longrightarrow> tx_input tx' = tx_input tx"
  by (auto simp: set_gasPrice_def ebind_Inr_iff)

lemma ChainDataAnchoring_Inr_iff:
  "ChainDataAnchoring E arg = Inr tx \<longleftrightarrow>
   (\<exists>obj tx0 tx1.
      (case arg of Raw s \<Rightarrow> decode_fields E s | Obj obj \<Rightarrow> Inr obj) = Inr obj \<and>
      AbstractTransaction obj = Inr tx0 \<and>
      \<not> (truthy (o_input obj) \<and> truthy (o_data obj)) \<and>
      set_input (js_or (o_input obj) (o_data obj)) tx0 = Inr tx1 \<and>
      (if o_gasPrice obj \<noteq> Undefined then set_gasPrice (o_gasPrice obj) tx1 else Inr tx1) = Inr tx)"
proof (cases "case arg of Raw s \<Rightarrow> decode_fields E s | Obj obj \<Rightarrow> Inr obj")
  case (Inl e)
  then show ?thesis by (simp add: ChainDataAnchoring_def)
next
  case obj: (Inr obj)
  show ?thesis
  proof (cases "AbstractTransaction obj")
    case (Inl e)
    with obj show ?thesis by (simp add: ChainDataAnchoring_def)
  next
    case tx0: (Inr tx0)
    show ?thesis
    proof (cases "set_input (js_or (o_input obj) (o_data obj)) tx0")
      case (Inl e)
      with obj tx0 show ?thesis by (simp add: ChainDataAnchoring_def)
    next
      case (Inr tx1)
      with obj tx0 show ?thesis by (simp add: ChainDataAnchoring_def)
    qed
  qed
qed

lemma ChainDataAnchoring_input:
  assumes "ChainDataAnchoring E arg = Inr tx"
  shows "\<exists>h. tx_input tx = Some h \<and> isHex (JStr h)"
proof -
  from assms obtain obj :: createTxObj and tx0 tx1 where
    i: "set_input (js_or (o_input obj) (o_data obj)) tx0 = Inr tx1" and
    g: "(if o_gasPrice obj \<noteq> Undefined then set_gasPrice (o_gasPrice obj) tx1 else Inr tx1) = Inr tx"
    unfolding ChainDataAnchoring_Inr_iff by blast
  from i obtain h where h: "tx_input tx1 = Some h" "isHex (JStr h)"
    using set_input_Inr by fastforce
  from g have "tx_input tx = tx_input tx1"
    by (auto dest: set_gasPrice_input split: if_splits)
  with h show ?thesis by simp
qed

lemma ChainDataAnchoring_no_input:
  assumes "\<not> truthy (o_input obj)" "\<not> truthy (o_data obj)"
  shows "\<exists>e. ChainDataAnchoring E (Obj obj) = Inl e"
proof (cases "ChainDataAnchoring E (Obj obj)")
  case (Inl e)
  then show ?thesis by blast
next
  case (Inr tx)
  then obtain tx0 tx1 where
    "set_input (js_or (o_input obj) (o_data obj)) tx0 = Inr tx1"
    unfolding ChainDataAnchoring_Inr_iff by auto
  then have "truthy (js_or (o_input obj) (o_data obj))"
    using set_input_Inr by blast
  with assms show ?thesis by (simp add: js_or_def)
qed

text \<open>
  A creation object with an empty input and a data: the constructor falls back to the
  data, and the construction succeeds.
\<close>
theorem constructor_falsy_input_counterexample:
  "o_input objFalsyInput = JStr [] \<and> \<not> truthy (o_input objFalsyInput) \<and>
   ChainDataAnchoring refEnv (Obj objFalsyInput) = Inr txSigned"
  by code_simp

text \<open>
  C9, as the code has it. Constructing from a creation object in which neither the input
  nor the data is a non-empty value fails; and every instance that a construction
  returns, from an object or from a raw string, has an input, a valid hex string.
\<close>
theorem constructor_requires_input:
  "(\<not> truthy (o_input obj) \<and> \<not> truthy (o_data obj) \<longrightarrow>
      (\<exists>e. ChainDataAnchoring E (Obj obj) = Inl e)) \<and>
   (\<forall>tx. ChainDataAnchoring E arg = Inr tx \<longrightarrow> (\<exists>h. tx_input tx = Some h \<and> isHex (JStr h)))"
  using ChainDataAnchoring_no_input ChainDataAnchoring_input by blast

lemma objValid_constructed:
  "ChainDataAnchoring refEnv (Obj objValid) = Inr txSigned"
  by code_simp

theorem constructor_requires_input_witness:
  "\<not> truthy (o_input (objValid\<lparr>o_input := JStr []\<rparr>)) \<and>
   \<not> truthy (o_data (objValid\<lparr>o_input := JStr []\<rparr>)) \<and>
   (\<exists>e. ChainDataAnchoring refEnv (Obj (objValid\<lparr>o_input := JStr []\<rparr>)) = Inl e) \<and>
   ChainDataAnchoring refEnv (Obj objValid) = Inr txSigned \<and>
   (\<exists>h. tx_input txSigned = Some h \<and> isHex (JStr h))"
proof -
  have 1: "\<not> truthy (o_input (objValid\<lparr>o_input := JStr []\<rparr>)) \<and>
           \<not> truthy (o_data (objValid\<lparr>o_input := JStr []\<rparr>))"
    by (simp add: objValid_def)
  from 1 constructor_requires_input [of "objValid\<lparr>o_input := JStr []\<rparr>" refEnv "Obj objValid"]
    objValid_constructed
  show ?thesis by blast
qed

section \<open>Both input and data\<close>

text \<open>
  Two creation objects that supply both fields. In the first the input is the empty
  string: the check does not fire and the construction succeeds. In the second both are
  non-empty and the sender is malformed: the envelope constructor runs first and raises
  its own error.
\<close>
theorem constructor_conflict_counterexample:
  "o_input objFalsyInput = JStr [] \<and> o_data objFalsyInput = JStr ''0xf8a6a0'' \<and>
   ChainDataAnchoring refEnv (Obj objFalsyInput) = Inr txSigned \<and>
   truthy (o_input objBadFrom) \<and> truthy (o_data objBadFrom) \<and>
   ChainDataAnchoring refEnv (Obj objBadFrom) = Inl InvalidFieldFormatError"
  by code_simp

text \<open>
  C5, as the code has it. Constructing from a creation object in which both the input
  and the data are set (non-empty) always fails; the error is \<open>ConflictingFieldError\<close>
  whenever the envelope constructor, which runs before the check, has accepted the
  common fields.
\<close>
theorem constructor_conflict:
  "truthy (o_input obj) \<and> truthy (o_data obj) \<longrightarrow>
     (\<exists>e. ChainDataAnchoring E (Obj obj) = Inl e) \<and>
     (\<forall>tx. AbstractTransaction obj = Inr tx \<longrightarrow>
        ChainDataAnchoring E (Obj obj) = Inl ConflictingFieldError)"
  by (cases "AbstractTransaction obj") (simp_all add: ChainDataAnchoring_def)

lemma objConflict_envelope:
  "AbstractTransaction objConflict =
   Inr (txSigned\<lparr>tx_gasPrice := None, tx_input := None\<rparr>)"
  by code_simp

theorem constructor_conflict_witness:
  "truthy (o_input objConflict) \<and> truthy (o_data objConflict) \<and>
   AbstractTransaction objConflict = Inr (txSigned\<lparr>tx_gasPrice := None, tx_input := None\<rparr>) \<and>
   ChainDataAnchoring refEnv (Obj objConflict) = Inl ConflictingFieldError"
proof -
  have 1: "truthy (o_input objConflict) \<and> truthy (o_data objConflict)"
    by (simp add: objConflict_def objValid_def)
  from 1 constructor_conflict [of objConflict refEnv] objConflict_envelope
  show ?thesis by blast
qed

section \<open>Setters and the filling of optional values\<close>

subsection \<open>What a setter changes\<close>

lemma set_nonce_Inr_iff:
  "set_nonce v tx = Inr tx' \<longleftrightarrow> (\<exists>h. numberToHex v = Inr h \<and> tx' = tx\<lparr>tx_nonce := Some h\<rparr>)"
  by (auto simp: set_nonce_def ebind_Inr_iff)

lemma set_gas_Inr_iff:
  "set_gas v tx = Inr tx' \<longleftrightarrow> (\<exists>h. numberToHex v = Inr h \<and> tx' = tx\<lparr>tx_gas := Some h\<rparr>)"
  by (auto simp: set_gas_def ebind_Inr_iff)

lemma set_chainId_Inr_iff:
  "set_chainId v tx = Inr tx' \<longleftrightarrow> (\<exists>h. numberToHex v = Inr h \<and> tx' = tx\<lparr>tx_chainId := Some h\<rparr>)"
  by (auto simp: set_chainId_def ebind_Inr_iff)

lemma set_gasPrice_Inr_iff:
  "set_gasPrice v tx = Inr tx' \<longleftrightarrow> (\<exists>h. numberToHex v = Inr h \<and> tx' = tx\<lparr>tx_gasPrice := Some h\<rparr>)"
  by (auto simp: set_gasPrice_def ebind_Inr_iff)

lemma set_from_Inr_iff:
  "set_from v tx = Inr tx' \<longleftrightarrow>
   (\<exists>s. v = JStr s \<and> isAddress v \<and> tx' = tx\<lparr>tx_from := Some (toLowerCase s)\<rparr>)"
  by (auto simp: set_from_def split: jsval.splits)

lemma set_signatures_Inr_iff:
  "set_signatures v tx = Inr tx' \<longleftrightarrow>
   (\<exists>sgs. toSignatures v = Inr sgs \<and> tx' = tx\<lparr>tx_signatures := sgs\<rparr>)"
  by (auto simp: set_signatures_def ebind_Inr_iff)

lemma set_input_Inr_iff:
  "set_input v tx = Inr tx' \<longleftrightarrow>
   (\<exists>h. truthy v \<and> isHex v \<and> toHex v = Inr h \<and> tx' = tx\<lparr>tx_input := Some h\<rparr>)"
  by (auto simp: set_input_def ebind_Inr_iff simp del: isHex.simps)

subsection \<open>Canonical values pass the setters unchanged\<close>

lemma set_canonical:
  assumes "canonicalInt h"
  shows "set_nonce (JStr h) tx = Inr (tx\<lparr>tx_nonce := Some h\<rparr>)"
    and "set_gas (JStr h) tx = Inr (tx\<lparr>tx_gas := Some h\<rparr>)"
    and "set_chainId (JStr h) tx = Inr (tx\<lparr>tx_chainId := Some h\<rparr>)"
    and "set_gasPrice (JStr h) tx = Inr (tx\<lparr>tx_gasPrice := Some h\<rparr>)"
  using numberToHex_fix [OF assms]
  by (simp_all add: set_nonce_def set_gas_def set_chainId_def set_gasPrice_def del: numberToHex.simps)

subsection \<open>fillTransaction\<close>

lemma js_field_Some [simp]: "js_field (Some h) = JStr h"
  by (simp add: js_field_def)

lemma fill_resolve_Inr:
  assumes "fill_resolve K tx = Inr (c, p, n)"
  shows "(case tx_chainId tx of None \<Rightarrow> getChainId K = Inr c | Some h \<Rightarrow> c = JStr h)"
    and "(case tx_gasPrice tx of None \<Rightarrow> suggestedGasPrice K = Inr p | Some h \<Rightarrow> p = JStr h)"
    and "(case tx_nonce tx of None \<Rightarrow> getNonce K (tx_from tx) = Inr n | Some h \<Rightarrow> n = JStr h)"
  using assms
  by (auto simp: fill_resolve_def ebind_Inr_iff isNot_def split: if_splits option.splits)

lemma fill_assign_shape:
  assumes "fill_assign (c, p, n) tx = (tx', err)"
  shows "\<exists>c' p' n'. tx' = tx\<lparr>tx_chainId := c', tx_gasPrice := p', tx_nonce := n'\<rparr> \<and>
     (c' = tx_chainId tx \<or> (\<exists>h. numberToHex c = Inr h \<and> c' = Some h)) \<and>
     (p' = tx_gasPrice tx \<or> (\<exists>h. numberToHex p = Inr h \<and> p' = Some h)) \<and>
     (n' = tx_nonce tx \<or> (\<exists>h. numberToHex n = Inr h \<and> n' = Some h)) \<and>
     (err = None \<longrightarrow> (\<exists>h. numberToHex c = Inr h \<and> c' = Some h) \<and>
        (\<exists>h. numberToHex p = Inr h \<and> p' = Some h) \<and> (\<exists>h. numberToHex n = Inr h \<and> n' = Some h))"
proof (cases "set_chainId c tx")
  case (Inl e)
  with assms have "tx' = tx" by (simp add: fill_assign_def)
  then have "tx' = tx\<lparr>tx_chainId := tx_chainId tx, tx_gasPrice := tx_gasPrice tx, tx_nonce := tx_nonce tx\<rparr>"
    by simp
  moreover from Inl assms have "err \<noteq> None" by (auto simp: fill_assign_def)
  ultimately show ?thesis by blast
next
  case c1: (Inr tx1)
  then obtain hc where hc: "numberToHex c = Inr hc" "tx1 = tx\<lparr>tx_chainId := Some hc\<rparr>"
    by (auto simp: set_chainId_Inr_iff)
  show ?thesis
  proof (cases "set_gasPrice p tx1")
    case (Inl e)
    with c1 assms have "tx' = tx1" "err \<noteq> None" by (auto simp: fill_assign_def)
    with hc have "tx' = tx\<lparr>tx_chainId := Some hc, tx_gasPrice := tx_gasPrice tx, tx_nonce := tx_nonce tx\<rparr>"
      by simp
    with hc \<open>err \<noteq> None\<close> show ?thesis by blast
  next
    case c2: (Inr tx2)
    then obtain hp where hp: "numberToHex p = Inr hp" "tx2 = tx1\<lparr>tx_gasPrice := Some hp\<rparr>"
      by (auto simp: set_gasPrice_Inr_iff)
    show ?thesis
    proof (cases "set_nonce n tx2")
      case (Inl e)
      with c1 c2 assms have "tx' = tx2" "err \<noteq> None" by (auto simp: fill_assign_def)
      with hc hp have "tx' = tx\<lparr>tx_chainId := Some hc, tx_gasPrice := Some hp, tx_nonce := tx_nonce tx\<rparr>"
        by simp
      with hc hp \<open>err \<noteq> None\<close> show ?thesis by blast
    next
      case c3: (Inr tx3)
      then obtain hn where hn: "numberToHex n = Inr hn" "tx3 = tx2\<lparr>tx_nonce := Some hn\<rparr>"
        by (auto simp: set_nonce_Inr_iff)
      from c1 c2 c3 assms have "tx' = tx3" by (auto simp: fill_assign_def)
      with hc hp hn have "tx' = tx\<lparr>tx_chainId := Some hc, tx_gasPrice := Some hp, tx_nonce := Some hn\<rparr>"
        by simp
      with hc hp hn show ?thesis by blast
    qed
  qed
qed

lemma fill_keeps_set_field:
  assumes "canonicalField f" "f = Some h0"
    and "case f of None \<Rightarrow> r = Inr v | Some h \<Rightarrow> v = JStr h"
    and "f' = f \<or> (\<exists>h. numberToHex v = Inr h \<and> f' = Some h)"
  shows "f' = f"
proof -
  from assms have "canonicalInt h0" "v = JStr h0" by (simp_all add: canonicalField_def)
  then have "numberToHex v = Inr h0" by (simp add: numberToHex_fix del: numberToHex.simps)
  with assms show ?thesis by auto
qed

text \<open>
  C8. On an instance whose chain id, gas price and nonce are, where set, as the setters
  leave them, \<^verbatim>\<open>fillTransaction\<close> keeps each of the three that was set (and makes no
  call for it), makes a call for each that was unset (and, when the promise is fulfilled,
  stores the hex form of the answer), and leaves sender, gas, input and signatures as
  they were. This holds whether the promise is fulfilled or rejected.
\<close>
theorem fillTransaction_frame:
  assumes "canonicalField (tx_chainId tx)" "canonicalField (tx_gasPrice tx)"
    "canonicalField (tx_nonce tx)"
    and "fillTransaction K tx = (calls, tx', err)"
  shows
   "(tx_chainId tx \<noteq> None \<longrightarrow> tx_chainId tx' = tx_chainId tx \<and> GetChainId \<notin> set calls) \<and>
    (tx_gasPrice tx \<noteq> None \<longrightarrow> tx_gasPrice tx' = tx_gasPrice tx \<and> GetGasPrice \<notin> set calls) \<and>
    (tx_nonce tx \<noteq> None \<longrightarrow>
       tx_nonce tx' = tx_nonce tx \<and> (\<forall>a. GetTransactionCount a \<notin> set calls)) \<and>
    (tx_chainId tx = None \<longrightarrow> GetChainId \<in> set calls \<and>
       (err = None \<longrightarrow>
          (\<exists>v h. getChainId K = Inr v \<and> numberToHex v = Inr h \<and> tx_chainId tx' = Some h))) \<and>
    (tx_gasPrice tx = None \<longrightarrow> GetGasPrice \<in> set calls \<and>
       (err = None \<longrightarrow>
          (\<exists>v h. suggestedGasPrice K = Inr v \<and> numberToHex v = Inr h \<and>
                 tx_gasPrice tx' = Some h))) \<and>
    (tx_nonce tx = None \<longrightarrow> GetTransactionCount (tx_from tx) \<in> set calls \<and>
       (err = None \<longrightarrow>
          (\<exists>v h. getNonce K (tx_from tx) = Inr v \<and> numberToHex v = Inr h \<and>
                 tx_nonce tx' = Some h))) \<and>
    tx_from tx' = tx_from tx \<and> tx_gas tx' = tx_gas tx \<and> tx_input tx' = tx_input tx \<and>
    tx_signatures tx' = tx_signatures tx"
proof -
  from assms(4) have calls: "calls = fill_calls tx"
    by (simp add: fillTransaction_def)
  have C: "(tx_chainId tx \<noteq> None \<longrightarrow> GetChainId \<notin> set calls) \<and>
           (tx_gasPrice tx \<noteq> None \<longrightarrow> GetGasPrice \<notin> set calls) \<and>
           (tx_nonce tx \<noteq> None \<longrightarrow> (\<forall>a. GetTransactionCount a \<notin> set calls)) \<and>
           (tx_chainId tx = None \<longrightarrow> GetChainId \<in> set calls) \<and>
           (tx_gasPrice tx = None \<longrightarrow> GetGasPrice \<in> set calls) \<and>
           (tx_nonce tx = None \<longrightarrow> GetTransactionCount (tx_from tx) \<in> set calls)"
    unfolding calls by (simp add: fill_calls_def isNot_def)
  show ?thesis
  proof (cases "fill_resolve K tx")
    case (Inl e)
    with assms(4) have "tx' = tx" "err \<noteq> None"
      by (auto simp: fillTransaction_def)
    with C show ?thesis by simp
  next
    case (Inr vals)
    obtain c p n where vals: "vals = (c, p, n)" by (cases vals)
    from Inr vals assms(4) have "fill_assign (c, p, n) tx = (tx', err)"
      by (simp add: fillTransaction_def)
    from fill_assign_shape [OF this] obtain c' p' n' where
      tx': "tx' = tx\<lparr>tx_chainId := c', tx_gasPrice := p', tx_nonce := n'\<rparr>" and
      c': "c' = tx_chainId tx \<or> (\<exists>h. numberToHex c = Inr h \<and> c' = Some h)" and
      p': "p' = tx_gasPrice tx \<or> (\<exists>h. numberToHex p = Inr h \<and> p' = Some h)" and
      n': "n' = tx_nonce tx \<or> (\<exists>h. numberToHex n = Inr h \<and> n' = Some h)" and
      ok: "err = None \<longrightarrow> (\<exists>h. numberToHex c = Inr h \<and> c' = Some h) \<and>
        (\<exists>h. numberToHex p = Inr h \<and> p' = Some h) \<and> (\<exists>h. numberToHex n = Inr h \<and> n' = Some h)"
      by blast
    from Inr vals have r:
      "case tx_chainId tx of None \<Rightarrow> getChainId K = Inr c | Some h \<Rightarrow> c = JStr h"
      "case tx_gasPrice tx of None \<Rightarrow> suggestedGasPrice K = Inr p | Some h \<Rightarrow> p = JStr h"
      "case tx_nonce tx of None \<Rightarrow> getNonce K (tx_from tx) = Inr n | Some h \<Rightarrow> n = JStr h"
      by (simp_all add: fill_resolve_Inr)
    have kc: "tx_chainId tx \<noteq> None \<longrightarrow> c' = tx_chainId tx"
      using fill_keeps_set_field [OF assms(1) _ r(1) c'] by blast
    have kp: "tx_gasPrice tx \<noteq> None \<longrightarrow> p' = tx_gasPrice tx"
      using fill_keeps_set_field [OF assms(2) _ r(2) p'] by blast
    have kn: "tx_nonce tx \<noteq> None \<longrightarrow> n' = tx_nonce tx"
      using fill_keeps_set_field [OF assms(3) _ r(3) n'] by blast
    have nc: "tx_chainId tx = None \<longrightarrow> err = None \<longrightarrow>
        (\<exists>v h. getChainId K = Inr v \<and> numberToHex v = Inr h \<and> c' = Some h)"
      using r(1) ok by auto
    have np: "tx_gasPrice tx = None \<longrightarrow> err = None \<longrightarrow>
        (\<exists>v h. suggestedGasPrice K = Inr v \<and> numberToHex v = Inr h \<and> p' = Some h)"
      using r(2) ok by auto
    have nn: "tx_nonce tx = None \<longrightarrow> err = None \<longrightarrow>
        (\<exists>v h. getNonce K (tx_from tx) = Inr v \<and> numberToHex v = Inr h \<and> n' = Some h)"
      using r(3) ok by auto
    from C kc kp kn nc np nn show ?thesis unfolding tx' by simp
  qed
qed

lemma txDraft_filled:
  "fillTransaction klaytnCallRef txDraft =
   ([GetChainId, GetTransactionCount (Some ''0xa94f5374fce5edbc8e2a8697c15331677e6ebf0b'')],
    txSigned\<lparr>tx_nonce := Some ''0x05''\<rparr>, None)"
  by code_simp

theorem fillTransaction_frame_witness:
  "canonicalField (tx_chainId txDraft) \<and> canonicalField (tx_gasPrice txDraft) \<and>
   canonicalField (tx_nonce txDraft) \<and>
   fillTransaction klaytnCallRef txDraft =
   ([GetChainId, GetTransactionCount (Some ''0xa94f5374fce5edbc8e2a8697c15331677e6ebf0b'')],
    txSigned\<lparr>tx_nonce := Some ''0x05''\<rparr>, None) \<and>
   tx_gasPrice txDraft \<noteq> None \<and>
   tx_gasPrice (txSigned\<lparr>tx_nonce := Some ''0x05''\<rparr>) = tx_gasPrice txDraft \<and>
   tx_chainId txDraft = None \<and>
   (\<exists>v h. getChainId klaytnCallRef = Inr v \<and> numberToHex v = Inr h \<and>
          tx_chainId (txSigned\<lparr>tx_nonce := Some ''0x05''\<rparr>) = Some h)"
proof -
  have 1: "canonicalField (tx_chainId txDraft)" "canonicalField (tx_gasPrice txDraft)"
    "canonicalField (tx_nonce txDraft)"
    by code_simp+
  have 2: "tx_gasPrice txDraft \<noteq> None" "tx_chainId txDraft = None"
    by (simp_all add: txDraft_def txSigned_def)
  from fillTransaction_frame [OF 1 txDraft_filled] 1 2 txDraft_filled
  show ?thesis by blast
qed

section \<open>Constructed instances\<close>

subsection \<open>Signatures\<close>

lemma toSignatureData_encode:
  "toSignatureData (sig_encode sg) =
   (if validSignature sg then Inr sg else Inl InvalidSignatureFormatError)"
  by (simp add: sig_encode_def validSignature_def del: isHex.simps)

lemma toSignatureData_Inr:
  assumes "toSignatureData v = Inr sg"
  shows "v = sig_encode sg \<and> validSignature sg"
  using assms
  by (rule toSignatureData.elims)
     (auto simp: sig_encode_def validSignature_def simp del: isHex.simps split: if_splits)

lemma toSignatureList_encode:
  "list_all validSignature sgs \<Longrightarrow> toSignatureList (map sig_encode sgs) = Inr sgs"
  by (induction sgs) (simp_all add: toSignatureData_encode)

lemma toSignatureList_Inr:
  "toSignatureList xs = Inr sgs \<Longrightarrow> xs = map sig_encode sgs \<and> list_all validSignature sgs"
proof (induction xs arbitrary: sgs)
  case Nil
  then show ?case by simp
next
  case (Cons x xs)
  from Cons.prems obtain sg rest where
    sg: "toSignatureData x = Inr sg" and rest: "toSignatureList xs = Inr rest" and
    sgs: "sgs = sg # rest"
    by (auto simp: ebind_Inr_iff)
  from toSignatureData_Inr [OF sg] Cons.IH [OF rest] sgs show ?case by simp
qed

lemma toSignatures_valid:
  assumes "toSignatures v = Inr sgs"
  shows "list_all validSignature sgs"
proof (cases v)
  case (JArr xs)
  show ?thesis
  proof (cases "xs \<noteq> [] \<and> list_all isJStr xs")
    case True
    with JArr assms obtain sg where "toSignatureData v = Inr sg" "sgs = [sg]"
      by (auto simp: toSignatures_def ebind_Inr_iff)
    with toSignatureData_Inr show ?thesis by simp
  next
    case False
    with JArr assms have "toSignatureList xs = Inr sgs"
      by (auto simp: toSignatures_def)
    with toSignatureList_Inr show ?thesis by blast
  qed
qed (use assms in \<open>simp_all add: toSignatures_def\<close>)

lemma toSignatures_encode:
  assumes "list_all validSignature sgs"
  shows "toSignatures (JArr (map sig_encode sgs)) = Inr sgs"
proof -
  have "\<not> (map sig_encode sgs \<noteq> [] \<and> list_all isJStr (map sig_encode sgs))"
    by (cases sgs) (simp_all add: sig_encode_def)
  moreover from assms have "toSignatureList (map sig_encode sgs) = Inr sgs"
    by (rule toSignatureList_encode)
  ultimately show ?thesis by (auto simp: toSignatures_def)
qed

subsection \<open>The constructors\<close>

lemma setIfDefined_Inr_iff:
  "setIfDefined setter v tx = Inr tx' \<longleftrightarrow>
   (if v = Undefined then tx' = tx else setter v tx = Inr tx')"
  by (auto simp: setIfDefined_def)

lemma AbstractTransaction_Inr:
  assumes "AbstractTransaction obj = Inr tx"
  shows "(if o_from obj = Undefined then tx_from tx = None
          else \<exists>s. o_from obj = JStr s \<and> isAddress (JStr s) \<and> tx_from tx = Some (toLowerCase s))"
    and "(if o_gas obj = Undefined then tx_gas tx = None
          else \<exists>h. numberToHex (o_gas obj) = Inr h \<and> tx_gas tx = Some h)"
    and "(if o_nonce obj = Undefined then tx_nonce tx = None
          else \<exists>h. numberToHex (o_nonce obj) = Inr h \<and> tx_nonce tx = Some h)"
    and "(if o_chainId obj = Undefined then tx_chainId tx = None
          else \<exists>h. numberToHex (o_chainId obj) = Inr h \<and> tx_chainId tx = Some h)"
    and "tx_gasPrice tx = None" and "tx_input tx = None"
    and "toSignatures (js_or (o_signatures obj) (JArr [])) = Inr (tx_signatures tx)"
proof -
  from assms obtain t1 t2 t3 t4 where
    1: "setIfDefined set_from (o_from obj) emptyTransaction = Inr t1" and
    2: "setIfDefined set_gas (o_gas obj) t1 = Inr t2" and
    3: "setIfDefined set_nonce (o_nonce obj) t2 = Inr t3" and
    4: "setIfDefined set_chainId (o_chainId obj) t3 = Inr t4" and
    5: "set_signatures (js_or (o_signatures obj) (JArr [])) t4 = Inr tx"
    by (auto simp: AbstractTransaction_def ebind_Inr_iff)
  from 1 have a: "(if o_from obj = Undefined then tx_from t1 = None
          else \<exists>s. o_from obj = JStr s \<and> isAddress (JStr s) \<and> tx_from t1 = Some (toLowerCase s))"
     "tx_gas t1 = None" "tx_nonce t1 = None" "tx_chainId t1 = None" "tx_gasPrice t1 = None"
     "tx_input t1 = None"
    by (auto simp: setIfDefined_Inr_iff set_from_Inr_iff emptyTransaction_def split: if_splits)
  from 2 have b: "tx_from t2 = tx_from t1" "(if o_gas obj = Undefined then tx_gas t2 = tx_gas t1
          else \<exists>h. numberToHex (o_gas obj) = Inr h \<and> tx_gas t2 = Some h)"
     "tx_nonce t2 = tx_nonce t1" "tx_chainId t2 = tx_chainId t1" "tx_gasPrice t2 = tx_gasPrice t1"
     "tx_input t2 = tx_input t1"
    by (auto simp: setIfDefined_Inr_iff set_gas_Inr_iff split: if_splits)
  from 3 have c: "tx_from t3 = tx_from t2" "tx_gas t3 = tx_gas t2"
     "(if o_nonce obj = Undefined then tx_nonce t3 = tx_nonce t2
          else \<exists>h. numberToHex (o_nonce obj) = Inr h \<and> tx_nonce t3 = Some h)"
     "tx_chainId t3 = tx_chainId t2" "tx_gasPrice t3 = tx_gasPrice t2"
     "tx_input t3 = tx_input t2"
    by (auto simp: setIfDefined_Inr_iff set_nonce_Inr_iff split: if_splits)
  from 4 have d: "tx_from t4 = tx_from t3" "tx_gas t4 = tx_gas t3" "tx_nonce t4 = tx_nonce t3"
     "(if o_chainId obj = Undefined then tx_chainId t4 = tx_chainId t3
          else \<exists>h. numberToHex (o_chainId obj) = Inr h \<and> tx_chainId t4 = Some h)"
     "tx_gasPrice t4 = tx_gasPrice t3" "tx_input t4 = tx_input t3"
    by (auto simp: setIfDefined_Inr_iff set_chainId_Inr_iff split: if_splits)
  from 5 have e: "tx_from tx = tx_from t4" "tx_gas tx = tx_gas t4" "tx_nonce tx = tx_nonce t4"
     "tx_chainId tx = tx_chainId t4" "tx_gasPrice tx = tx_gasPrice t4" "tx_input tx = tx_input t4"
     "toSignatures (js_or (o_signatures obj) (JArr [])) = Inr (tx_signatures tx)"
    by (auto simp: set_signatures_Inr_iff)
  from a b c d e show "(if o_from obj = Undefined then tx_from tx = None
          else \<exists>s. o_from obj = JStr s \<and> isAddress (JStr s) \<and> tx_from tx = Some (toLowerCase s))"
    by simp
  from a b c d e show "(if o_gas obj = Undefined then tx_gas tx = None
          else \<exists>h. numberToHex (o_gas obj) = Inr h \<and> tx_gas tx = Some h)"
    by simp
  from a b c d e show "(if o_nonce obj = Undefined then tx_nonce tx = None
          else \<exists>h. numberToHex (o_nonce obj) = Inr h \<and> tx_nonce tx = Some h)"
    by simp
  from a b c d e show "(if o_chainId obj = Undefined then tx_chainId tx = None
          else \<exists>h. numberToHex (o_chainId obj) = Inr h \<and> tx_chainId tx = Some h)"
    by simp
  from a b c d e show "tx_gasPrice tx = None" "tx_input tx = None"
    "toSignatures (js_or (o_signatures obj) (JArr [])) = Inr (tx_signatures tx)"
    by simp_all
qed

lemma ChainDataAnchoring_Inr:
  assumes "ChainDataAnchoring E (Obj obj) = Inr tx"
  shows "(if o_from obj = Undefined then tx_from tx = None
          else \<exists>s. o_from obj = JStr s \<and> isAddress (JStr s) \<and> tx_from tx = Some (toLowerCase s))"
    and "(if o_gas obj = Undefined then tx_gas tx = None
          else \<exists>h. numberToHex (o_gas obj) = Inr h \<and> tx_gas tx = Some h)"
    and "(if o_nonce obj = Undefined then tx_nonce tx = None
          else \<exists>h. numberToHex (o_nonce obj) = Inr h \<and> tx_nonce tx = Some h)"
    and "(if o_chainId obj = Undefined then tx_chainId tx = None
          else \<exists>h. numberToHex (o_chainId obj) = Inr h \<and> tx_chainId tx = Some h)"
    and "(if o_gasPrice obj = Undefined then tx_gasPrice tx = None
          else \<exists>h. numberToHex (o_gasPrice obj) = Inr h \<and> tx_gasPrice tx = Some h)"
    and "\<exists>h. toHex (js_or (o_input obj) (o_data obj)) = Inr h \<and> tx_input tx = Some h"
    and "toSignatures (js_or (o_signatures obj) (JArr [])) = Inr (tx_signatures tx)"
proof -
  from assms obtain tx0 tx1 where
    0: "AbstractTransaction obj = Inr tx0" and
    1: "set_input (js_or (o_input obj) (o_data obj)) tx0 = Inr tx1" and
    2: "(if o_gasPrice obj \<noteq> Undefined then set_gasPrice (o_gasPrice obj) tx1 else Inr tx1) = Inr tx"
    unfolding ChainDataAnchoring_Inr_iff by auto
  note a = AbstractTransaction_Inr [OF 0]
  from 1 obtain h where h: "toHex (js_or (o_input obj) (o_data obj)) = Inr h"
    "tx1 = tx0\<lparr>tx_input := Some h\<rparr>"
    by (auto simp: set_input_Inr_iff simp del: isHex.simps)
  from 2 have g: "(if o_gasPrice obj = Undefined then tx = tx1
     else \<exists>h. numberToHex (o_gasPrice obj) = Inr h \<and> tx = tx1\<lparr>tx_gasPrice := Some h\<rparr>)"
    by (auto simp: set_gasPrice_Inr_iff split: if_splits)
  from g h have f: "tx_from tx = tx_from tx0" "tx_gas tx = tx_gas tx0" "tx_nonce tx = tx_nonce tx0"
    "tx_chainId tx = tx_chainId tx0" "tx_signatures tx = tx_signatures tx0" "tx_input tx = Some h"
    by (auto split: if_splits)
  from a f show "(if o_from obj = Undefined then tx_from tx = None
          else \<exists>s. o_from obj = JStr s \<and> isAddress (JStr s) \<and> tx_from tx = Some (toLowerCase s))"
    by simp
  from a f show "(if o_gas obj = Undefined then tx_gas tx = None
          else \<exists>h. numberToHex (o_gas obj) = Inr h \<and> tx_gas tx = Some h)"
    by simp
  from a f show "(if o_nonce obj = Undefined then tx_nonce tx = None
          else \<exists>h. numberToHex (o_nonce obj) = Inr h \<and> tx_nonce tx = Some h)"
    by simp
  from a f show "(if o_chainId obj = Undefined then tx_chainId tx = None
          else \<exists>h. numberToHex (o_chainId obj) = Inr h \<and> tx_chainId tx = Some h)"
    by simp
  from g h a(5) show "(if o_gasPrice obj = Undefined then tx_gasPrice tx = None
          else \<exists>h. numberToHex (o_gasPrice obj) = Inr h \<and> tx_gasPrice tx = Some h)"
    by (auto split: if_splits)
  from h f show "\<exists>h. toHex (js_or (o_input obj) (o_data obj)) = Inr h \<and> tx_input tx = Some h"
    by simp
  from a f show "toSignatures (js_or (o_signatures obj) (JArr [])) = Inr (tx_signatures tx)"
    by simp
qed

subsection \<open>Every constructed instance is valid\<close>

lemma toLowerCase_prefixed:
  "startsWith s ''0x'' \<Longrightarrow> toLowerCase s = CHR ''0'' # CHR ''x'' # toLowerCase (slice 2 s)"
proof -
  assume "startsWith s ''0x''"
  then have "s = CHR ''0'' # CHR ''x'' # slice 2 s" by (simp add: prefix_slice)
  then have "toLowerCase s = toLowerCase (CHR ''0'' # CHR ''x'' # slice 2 s)" by simp
  then show ?thesis by (simp add: toLowerCase_def toLowerCase_char_def)
qed

lemma toLowerCase_hex: "list_all isHexDigit ds \<Longrightarrow> list_all isHexDigit (toLowerCase ds)"
  by (simp add: toLowerCase_lower list_all_lower_hex)

lemma isAddress_toLowerCase:
  assumes "isAddress (JStr s)"
  shows "isAddress (JStr (toLowerCase s))"
proof -
  from assms have p: "startsWith s ''0x''" and d: "list_all isHexDigit (slice 2 s)"
    and l: "length s = 42"
    by (simp_all add: isAddress_def)
  from p have "toLowerCase s = CHR ''0'' # CHR ''x'' # toLowerCase (slice 2 s)"
    by (rule toLowerCase_prefixed)
  moreover from d have "list_all isHexDigit (toLowerCase (slice 2 s))"
    by (rule toLowerCase_hex)
  moreover from l have "length (toLowerCase s) = 42" by simp
  ultimately show ?thesis by (simp add: isAddress_def)
qed

lemma numberToHex_field:
  "(if v = Undefined then f = None else \<exists>h. numberToHex v = Inr h \<and> f = Some h) \<Longrightarrow>
   canonicalField f"
  by (auto simp: canonicalField_def numberToHex_canonical split: if_splits)

lemma ChainDataAnchoring_Obj_valid:
  assumes "ChainDataAnchoring E (Obj obj) = Inr tx"
  shows "validTransaction tx"
proof -
  note c = ChainDataAnchoring_Inr [OF assms]
  have "canonicalField (tx_nonce tx)" "canonicalField (tx_gas tx)"
    "canonicalField (tx_gasPrice tx)" "canonicalField (tx_chainId tx)"
    using c(2,3,4,5) by (simp_all add: numberToHex_field)
  moreover have "case tx_from tx of None \<Rightarrow> True | Some a \<Rightarrow> isAddress (JStr a) \<and> toLowerCase a = a"
    using c(1) by (auto simp: isAddress_toLowerCase toLowerCase_idem split: if_splits)
  moreover have "case tx_input tx of None \<Rightarrow> False | Some h \<Rightarrow> isHex (JStr h)"
    using c(6) toHex_isHex by (auto simp del: isHex.simps)
  moreover have "list_all validSignature (tx_signatures tx)"
    using c(7) by (rule toSignatures_valid)
  ultimately show ?thesis by (simp add: validTransaction_def)
qed

lemma ChainDataAnchoring_valid:
  assumes "ChainDataAnchoring E arg = Inr tx"
  shows "validTransaction tx"
proof (cases arg)
  case (Obj obj)
  with assms show ?thesis by (simp add: ChainDataAnchoring_Obj_valid)
next
  case (Raw s)
  with assms obtain obj where "decode_fields E s = Inr obj"
    by (cases "decode_fields E s") (simp_all add: ChainDataAnchoring_def)
  with Raw assms have "ChainDataAnchoring E (Obj obj) = Inr tx"
    by (simp add: ChainDataAnchoring_def)
  then show ?thesis by (rule ChainDataAnchoring_Obj_valid)
qed

lemma decode_valid: "decode E raw = Inr tx \<Longrightarrow> validTransaction tx"
  by (auto simp: decode_def ebind_Inr_iff ChainDataAnchoring_Obj_valid)

subsection \<open>Decoding a field list\<close>

lemma decode_fields_list:
  assumes "startsWith (addHexPrefix raw) (TxTypeChainDataAnchoring E)"
    and "RLP_decode E (''0x'' @ slice 4 (addHexPrefix raw)) = JArr (n # p # g # a # i # s # rest)"
  shows "decode_fields E raw =
     Inr \<lparr> o_from = a, o_nonce = trimLeadingZero n, o_gas = trimLeadingZero g,
           o_gasPrice = trimLeadingZero p, o_chainId = Undefined, o_input = i,
           o_data = Undefined, o_signatures = s \<rparr>"
  using assms by (simp add: decode_fields_def js_nth_def)

section \<open>Leading zero bytes\<close>

lemma stripped_canonical:
  assumes "list_all isLowerHexDigit ds" "even (length ds)"
  shows "canonicalInt (CHR ''0'' # CHR ''x'' # stripZeroBytes ds)"
  using assms by (simp add: canonicalInt_def strip_all strip_even strip_no_zero_byte)

lemma stored_integer:
  assumes "startsWith w ''0x''"
    and "(if trimLeadingZero (JStr w) = Undefined then f = None
          else \<exists>h. numberToHex (trimLeadingZero (JStr w)) = Inr h \<and> f = Some h)"
  shows "\<exists>h. f = Some h \<and> canonicalInt h \<and>
           numberToHex (JStr (''0x'' @ stripZeroBytes (slice 2 w))) = Inr h \<and>
           (list_all isLowerHexDigit (slice 2 w) \<and> even (length (slice 2 w)) \<longrightarrow>
              h = ''0x'' @ stripZeroBytes (slice 2 w))"
proof -
  from assms(1) have t: "trimLeadingZero (JStr w) = JStr (''0x'' @ stripZeroBytes (slice 2 w))"
    by simp
  with assms(2) obtain h where h: "numberToHex (JStr (''0x'' @ stripZeroBytes (slice 2 w))) = Inr h"
    "f = Some h"
    by auto
  from h(1) have c: "canonicalInt h" by (rule numberToHex_canonical)
  have "h = ''0x'' @ stripZeroBytes (slice 2 w)"
    if "list_all isLowerHexDigit (slice 2 w) \<and> even (length (slice 2 w))"
  proof -
    from that have "canonicalInt (''0x'' @ stripZeroBytes (slice 2 w))"
      by (simp add: stripped_canonical)
    then have "numberToHex (JStr (''0x'' @ stripZeroBytes (slice 2 w))) =
               Inr (''0x'' @ stripZeroBytes (slice 2 w))"
      by (rule numberToHex_fix)
    with h(1) show ?thesis by simp
  qed
  with h c show ?thesis by blast
qed

text \<open>
  C7. Let the raw string carry the tag and let the codec decode its payload to a list
  that starts with three hex strings, for nonce, gas price and gas. Then \<^verbatim>\<open>_decode\<close>
  hands each of them on with its leading zero bytes stripped; and whenever \<^verbatim>\<open>decode\<close>
  returns an instance, its nonce, gas price and gas are in the minimal in-memory form,
  being the hex form of the stripped value, and equal to the stripped value itself when
  the wire value is a lower-case byte string.
\<close>
theorem decode_strips_leading_zero_bytes:
  assumes "startsWith (addHexPrefix raw) (TxTypeChainDataAnchoring E)"
    and "RLP_decode E (''0x'' @ slice 4 (addHexPrefix raw)) = JArr (JStr n # JStr p # JStr g # rest)"
    and "startsWith n ''0x''" "startsWith p ''0x''" "startsWith g ''0x''"
  shows
    "(\<exists>obj. decode_fields E raw = Inr obj \<and>
         o_nonce obj = JStr (''0x'' @ stripZeroBytes (slice 2 n)) \<and>
         o_gasPrice obj = JStr (''0x'' @ stripZeroBytes (slice 2 p)) \<and>
         o_gas obj = JStr (''0x'' @ stripZeroBytes (slice 2 g))) \<and>
     \<not> startsWith (stripZeroBytes (slice 2 n)) ''00'' \<and>
     \<not> startsWith (stripZeroBytes (slice 2 p)) ''00'' \<and>
     \<not> startsWith (stripZeroBytes (slice 2 g)) ''00'' \<and>
     (\<forall>tx. decode E raw = Inr tx \<longrightarrow>
        (\<exists>n' p' g'.
           tx_nonce tx = Some n' \<and> tx_gasPrice tx = Some p' \<and> tx_gas tx = Some g' \<and>
           canonicalInt n' \<and> canonicalInt p' \<and> canonicalInt g' \<and>
           numberToHex (JStr (''0x'' @ stripZeroBytes (slice 2 n))) = Inr n' \<and>
           numberToHex (JStr (''0x'' @ stripZeroBytes (slice 2 p))) = Inr p' \<and>
           numberToHex (JStr (''0x'' @ stripZeroBytes (slice 2 g))) = Inr g' \<and>
           (list_all isLowerHexDigit (slice 2 n) \<and> even (length (slice 2 n)) \<longrightarrow>
              n' = ''0x'' @ stripZeroBytes (slice 2 n)) \<and>
           (list_all isLowerHexDigit (slice 2 p) \<and> even (length (slice 2 p)) \<longrightarrow>
              p' = ''0x'' @ stripZeroBytes (slice 2 p)) \<and>
           (list_all isLowerHexDigit (slice 2 g) \<and> even (length (slice 2 g)) \<longrightarrow>
              g' = ''0x'' @ stripZeroBytes (slice 2 g))))"
proof -
  define obj where "obj =
     \<lparr> o_from = js_nth rest 0, o_nonce = trimLeadingZero (JStr n),
       o_gas = trimLeadingZero (JStr g), o_gasPrice = trimLeadingZero (JStr p),
       o_chainId = Undefined, o_input = js_nth rest 1, o_data = Undefined,
       o_signatures = js_nth rest 2 \<rparr>"
  from assms(1,2) have d: "decode_fields E raw = Inr obj"
    by (simp add: decode_fields_def js_nth_def obj_def)
  from assms(3,4,5) have o:
    "o_nonce obj = JStr (''0x'' @ stripZeroBytes (slice 2 n))"
    "o_gasPrice obj = JStr (''0x'' @ stripZeroBytes (slice 2 p))"
    "o_gas obj = JStr (''0x'' @ stripZeroBytes (slice 2 g))"
    by (simp_all add: obj_def)
  have stored: "\<exists>n' p' g'.
           tx_nonce tx = Some n' \<and> tx_gasPrice tx = Some p' \<and> tx_gas tx = Some g' \<and>
           canonicalInt n' \<and> canonicalInt p' \<and> canonicalInt g' \<and>
           numberToHex (JStr (''0x'' @ stripZeroBytes (slice 2 n))) = Inr n' \<and>
           numberToHex (JStr (''0x'' @ stripZeroBytes (slice 2 p))) = Inr p' \<and>
           numberToHex (JStr (''0x'' @ stripZeroBytes (slice 2 g))) = Inr g' \<and>
           (list_all isLowerHexDigit (slice 2 n) \<and> even (length (slice 2 n)) \<longrightarrow>
              n' = ''0x'' @ stripZeroBytes (slice 2 n)) \<and>
           (list_all isLowerHexDigit (slice 2 p) \<and> even (length (slice 2 p)) \<longrightarrow>
              p' = ''0x'' @ stripZeroBytes (slice 2 p)) \<and>
           (list_all isLowerHexDigit (slice 2 g) \<and> even (length (slice 2 g)) \<longrightarrow>
              g' = ''0x'' @ stripZeroBytes (slice 2 g))"
    if "decode E raw = Inr tx" for tx
  proof -
    from that d have c: "ChainDataAnchoring E (Obj obj) = Inr tx"
      by (simp add: decode_def)
    note f = ChainDataAnchoring_Inr [OF c]
    have sel: "o_nonce obj = trimLeadingZero (JStr n)" "o_gasPrice obj = trimLeadingZero (JStr p)"
      "o_gas obj = trimLeadingZero (JStr g)"
      by (simp_all add: obj_def del: trimLeadingZero.simps)
    have fn: "(if trimLeadingZero (JStr n) = Undefined then tx_nonce tx = None
          else \<exists>h. numberToHex (trimLeadingZero (JStr n)) = Inr h \<and> tx_nonce tx = Some h)"
      using f(3) by (simp only: sel)
    have fp: "(if trimLeadingZero (JStr p) = Undefined then tx_gasPrice tx = None
          else \<exists>h. numberToHex (trimLeadingZero (JStr p)) = Inr h \<and> tx_gasPrice tx = Some h)"
      using f(5) by (simp only: sel)
    have fg: "(if trimLeadingZero (JStr g) = Undefined then tx_gas tx = None
          else \<exists>h. numberToHex (trimLeadingZero (JStr g)) = Inr h \<and> tx_gas tx = Some h)"
      using f(2) by (simp only: sel)
    from stored_integer [OF assms(3) fn] stored_integer [OF assms(4) fp]
      stored_integer [OF assms(5) fg]
    show ?thesis by blast
  qed
  from d o stored show ?thesis
    by (simp add: strip_no_zero_byte)
qed

lemma rawNonMinimal_decoded:
  "decode refEnv rawNonMinimal =
   Inr (txSigned\<lparr>tx_gasPrice := Some ''0x'', tx_chainId := None\<rparr>)"
  by code_simp

theorem decode_strips_leading_zero_bytes_witness:
  "startsWith (addHexPrefix rawNonMinimal) (TxTypeChainDataAnchoring refEnv) \<and>
   RLP_decode refEnv (''0x'' @ slice 4 (addHexPrefix rawNonMinimal)) =
     JArr (JStr ''0x0001'' # JStr ''0x0000'' # JStr ''0x000f4240'' #
           [JStr ''0xa94f5374fce5edbc8e2a8697c15331677e6ebf0b'', JStr ''0xf8a6a0'',
            JArr [JArr [JStr ''0x0fe9'', JStr ''0x1234'', JStr ''0x0abc'']]]) \<and>
   decode refEnv rawNonMinimal =
     Inr (txSigned\<lparr>tx_gasPrice := Some ''0x'', tx_chainId := None\<rparr>) \<and>
   tx_nonce (txSigned\<lparr>tx_gasPrice := Some ''0x'', tx_chainId := None\<rparr>) = Some ''0x01'' \<and>
   canonicalInt ''0x01'' \<and> canonicalInt ''0x'' \<and> canonicalInt ''0x0f4240''"
proof -
  have 1: "startsWith (addHexPrefix rawNonMinimal) (TxTypeChainDataAnchoring refEnv)"
    by code_simp
  have 2: "RLP_decode refEnv (''0x'' @ slice 4 (addHexPrefix rawNonMinimal)) =
     JArr (JStr ''0x0001'' # JStr ''0x0000'' # JStr ''0x000f4240'' #
           [JStr ''0xa94f5374fce5edbc8e2a8697c15331677e6ebf0b'', JStr ''0xf8a6a0'',
            JArr [JArr [JStr ''0x0fe9'', JStr ''0x1234'', JStr ''0x0abc'']]])"
    by code_simp
  have 3: "startsWith ''0x0001'' ''0x''" "startsWith ''0x0000'' ''0x''"
    "startsWith ''0x000f4240'' ''0x''"
    by (simp_all add: startsWith_def)
  from decode_strips_leading_zero_bytes [OF 1 2 3] rawNonMinimal_decoded
  obtain n' p' g' where
    "tx_nonce (txSigned\<lparr>tx_gasPrice := Some ''0x'', tx_chainId := None\<rparr>) = Some n'"
    "tx_gasPrice (txSigned\<lparr>tx_gasPrice := Some ''0x'', tx_chainId := None\<rparr>) = Some p'"
    "tx_gas (txSigned\<lparr>tx_gasPrice := Some ''0x'', tx_chainId := None\<rparr>) = Some g'"
    "canonicalInt n'" "canonicalInt p'" "canonicalInt g'"
    by blast
  then have "tx_nonce (txSigned\<lparr>tx_gasPrice := Some ''0x'', tx_chainId := None\<rparr>) = Some ''0x01''"
    "canonicalInt ''0x01''" "canonicalInt ''0x''" "canonicalInt ''0x0f4240''"
    by (simp_all add: txSigned_def)
  with 1 2 rawNonMinimal_decoded show ?thesis by blast
qed

section \<open>Round trip, given the codec\<close>

lemma raw_shape:
  assumes "startsWith t ''0x''" "length t = 4"
  shows "addHexPrefix (t @ x) = t @ x" and "startsWith (t @ x) t" and "slice 4 (t @ x) = x"
proof -
  from assms have "take 2 (t @ x) = ''0x''"
    by (simp add: startsWith_def numeral_2_eq_2)
  then have "startsWith (t @ x) ''0x''"
    by (simp add: startsWith_def numeral_2_eq_2)
  then show "addHexPrefix (t @ x) = t @ x" by (simp add: addHexPrefix_def)
  show "startsWith (t @ x) t" by (simp add: startsWith_def)
  from assms(2) show "slice 4 (t @ x) = x" by (simp add: slice_def)
qed

lemma isHex_nonempty: "isHex (JStr h) \<Longrightarrow> h \<noteq> []"
  by (auto simp: startsWith_def)

lemma set_input_hex:
  assumes "isHex (JStr h)"
  shows "set_input (js_or (JStr h) Undefined) tx = Inr (tx\<lparr>tx_input := Some h\<rparr>)"
  using assms isHex_nonempty [OF assms]
  by (simp add: set_input_def js_or_def toHex_def del: isHex.simps)

lemma set_from_lower:
  assumes "isAddress (JStr a)"
  shows "set_from (JStr a) tx = Inr (tx\<lparr>tx_from := Some (toLowerCase a)\<rparr>)"
  using assms by (simp add: set_from_def)

lemma set_signatures_encoded:
  assumes "list_all validSignature sgs"
  shows "set_signatures (js_or (JArr (map sig_encode sgs)) (JArr [])) tx =
         Inr (tx\<lparr>tx_signatures := sgs\<rparr>)"
  using toSignatures_encode [OF assms] by (simp add: set_signatures_def js_or_def)

lemma construct_decoded:
  assumes "canonicalInt n" "canonicalInt p" "canonicalInt g"
    and "isAddress (JStr a)" "toLowerCase a = a" "isHex (JStr i)"
    and "list_all validSignature sgs"
  shows "ChainDataAnchoring E (Obj
           \<lparr> o_from = JStr a, o_nonce = JStr n, o_gas = JStr g, o_gasPrice = JStr p,
             o_chainId = Undefined, o_input = JStr i, o_data = Undefined,
             o_signatures = JArr (map sig_encode sgs) \<rparr>) =
         Inr \<lparr> tx_from = Some a, tx_nonce = Some n, tx_gas = Some g, tx_gasPrice = Some p,
               tx_chainId = None, tx_input = Some i, tx_signatures = sgs \<rparr>"
proof -
  let ?obj = "\<lparr> o_from = JStr a, o_nonce = JStr n, o_gas = JStr g, o_gasPrice = JStr p,
             o_chainId = Undefined, o_input = JStr i, o_data = Undefined,
             o_signatures = JArr (map sig_encode sgs) \<rparr>"
  have "AbstractTransaction ?obj =
        Inr \<lparr> tx_from = Some a, tx_nonce = Some n, tx_gas = Some g, tx_gasPrice = None,
              tx_chainId = None, tx_input = None, tx_signatures = sgs \<rparr>"
    using assms
    by (simp add: AbstractTransaction_def setIfDefined_def set_from_lower set_canonical
        set_signatures_encoded emptyTransaction_def)
  then show ?thesis
    using assms
    by (simp add: ChainDataAnchoring_def set_input_hex set_canonical del: isHex.simps)
qed

text \<open>
  The round trip for any codec that round-trips the list \<^verbatim>\<open>getRLPEncoding\<close> encodes.
\<close>

lemma roundtrip_given_codec:
  assumes "validTransaction tx"
    and "tx_nonce tx = Some n" "tx_gasPrice tx = Some p" "tx_gas tx = Some g"
      "tx_chainId tx = Some c" "tx_from tx = Some a"
    and "startsWith (TxTypeChainDataAnchoring E) ''0x''" "length (TxTypeChainDataAnchoring E) = 4"
    and "roundTrips E
           (JArr [JStr (fromNat n), JStr (fromNat p), JStr (fromNat g), JStr (toLowerCase a),
                  js_field (tx_input tx), JArr (map sig_encode (tx_signatures tx))])"
  shows "\<exists>raw tx'. getRLPEncoding E tx = Inr raw \<and> decode E raw = Inr tx' \<and>
           tx_nonce tx' = tx_nonce tx \<and> tx_gasPrice tx' = tx_gasPrice tx \<and>
           tx_gas tx' = tx_gas tx \<and> tx_from tx' = tx_from tx \<and> tx_input tx' = tx_input tx \<and>
           tx_signatures tx' = tx_signatures tx"
proof -
  from assms(1-6) have can: "canonicalInt n" "canonicalInt p" "canonicalInt g"
    and adr: "isAddress (JStr a)" "toLowerCase a = a"
    and sgs: "list_all validSignature (tx_signatures tx)"
    by (simp_all add: validTransaction_def canonicalField_def)
  from assms(1) obtain i where i: "tx_input tx = Some i" "isHex (JStr i)"
    by (auto simp: validTransaction_def simp del: isHex.simps split: option.splits)
  let ?l = "JArr [JStr n, JStr p, JStr g, JStr a, JStr i, JArr (map sig_encode (tx_signatures tx))]"
  let ?enc = "RLP_encode E ?l"
  let ?raw = "TxTypeChainDataAnchoring E @ slice 2 ?enc"
  from assms(9) can adr i have rt: "startsWith ?enc ''0x''" "RLP_decode E ?enc = ?l"
    by (simp_all add: roundTrips_def fromNat_fix)
  have enc: "getRLPEncoding E tx = Inr ?raw"
    using assms(2-6) can adr i
    by (simp add: getRLPEncoding_def validateOptionalValues_def super_validateOptionalValues_def
        fromNat_field_def toLowerCase_field_def fromNat_fix)
  note shape = raw_shape [OF assms(7,8), of "slice 2 ?enc"]
  from rt(1) have "''0x'' @ slice 2 ?enc = ?enc"
    by (simp add: prefix_slice)
  with rt(2) shape have
    "RLP_decode E (''0x'' @ slice 4 (addHexPrefix ?raw)) =
     JArr (JStr n # JStr p # JStr g # JStr a # JStr i #
           JArr (map sig_encode (tx_signatures tx)) # [])"
    by simp
  from decode_fields_list [OF _ this] shape can
  have "decode_fields E ?raw =
     Inr \<lparr> o_from = JStr a, o_nonce = JStr n, o_gas = JStr g, o_gasPrice = JStr p,
           o_chainId = Undefined, o_input = JStr i, o_data = Undefined,
           o_signatures = JArr (map sig_encode (tx_signatures tx)) \<rparr>"
    by (simp add: trimLeadingZero_fix del: trimLeadingZero.simps)
  then have dec: "decode E ?raw =
     Inr \<lparr> tx_from = Some a, tx_nonce = Some n, tx_gas = Some g, tx_gasPrice = Some p,
           tx_chainId = None, tx_input = Some i, tx_signatures = tx_signatures tx \<rparr>"
    using construct_decoded [OF can adr i(2) sgs, of E]
    by (simp add: decode_def)
  from enc dec assms(2-6) i(1) show ?thesis
    by simp
qed

lemma txSigned_valid: "validTransaction txSigned"
  by code_simp

section \<open>The invariant is kept\<close>

lemma fillTransaction_valid:
  assumes "validTransaction tx" "fillTransaction K tx = (calls, tx', err)"
  shows "validTransaction tx'"
proof (cases "fill_resolve K tx")
  case (Inl e)
  with assms show ?thesis by (auto simp: fillTransaction_def)
next
  case (Inr vals)
  obtain c p n where vals: "vals = (c, p, n)" by (cases vals)
  from Inr vals assms(2) have "fill_assign (c, p, n) tx = (tx', err)"
    by (simp add: fillTransaction_def)
  from fill_assign_shape [OF this] obtain c' p' n' where
    tx': "tx' = tx\<lparr>tx_chainId := c', tx_gasPrice := p', tx_nonce := n'\<rparr>" and
    c': "c' = tx_chainId tx \<or> (\<exists>h. numberToHex c = Inr h \<and> c' = Some h)" and
    p': "p' = tx_gasPrice tx \<or> (\<exists>h. numberToHex p = Inr h \<and> p' = Some h)" and
    n': "n' = tx_nonce tx \<or> (\<exists>h. numberToHex n = Inr h \<and> n' = Some h)"
    by blast
  from assms(1) c' have "canonicalField c'"
    by (auto simp: validTransaction_def canonicalField_def numberToHex_canonical)
  moreover from assms(1) p' have "canonicalField p'"
    by (auto simp: validTransaction_def canonicalField_def numberToHex_canonical)
  moreover from assms(1) n' have "canonicalField n'"
    by (auto simp: validTransaction_def canonicalField_def numberToHex_canonical)
  ultimately show ?thesis
    using assms(1) unfolding tx' by (simp add: validTransaction_def)
qed

section \<open>The reference codec on byte strings\<close>

subsection \<open>Numbers in hexadecimal\<close>

lemma hexDigitValue_table: "\<forall>d\<in>set [0..<16]. hexDigitValue (hexDigit d) = d"
  by code_simp

lemma hexDigitValue_hexDigit: "hexDigitValue (hexDigit d) = d mod 16"
proof -
  have "d mod 16 \<in> set [0..<16]" by simp
  with hexDigitValue_table have "hexDigitValue (hexDigit (d mod 16)) = d mod 16" by blast
  then show ?thesis by (simp add: hexDigit_def)
qed

lemma parseInt16_snoc: "parseInt16 (ds @ [c]) = 16 * parseInt16 ds + hexDigitValue c"
  by (simp add: parseInt16_def)

lemma parseInt16_hexOfNat: "parseInt16 (hexOfNat n) = n"
proof (induction n rule: hexOfNat.induct)
  case (1 n)
  show ?case
  proof (cases "n < 16")
    case True
    then show ?thesis
      by (subst hexOfNat.simps) (simp add: parseInt16_def hexDigitValue_hexDigit)
  next
    case False
    with 1 have "parseInt16 (hexOfNat (n div 16)) = n div 16" by simp
    with False show ?thesis
      by (subst hexOfNat.simps) (simp add: parseInt16_snoc hexDigitValue_hexDigit)
  qed
qed

lemma parseInt16_zero: "parseInt16 (CHR ''0'' # ds) = parseInt16 ds"
  by (simp add: parseInt16_def hexDigitValue_def)

lemma parseInt16_uintHex: "parseInt16 (uintHex n) = n"
  by (simp add: uintHex_def padEven_def parseInt16_zero parseInt16_hexOfNat)

lemma hexOfNat_nonempty: "hexOfNat n \<noteq> []"
  by (subst hexOfNat.simps) simp

lemma hexOfNat_length: "0 < m \<Longrightarrow> n < 16 ^ m \<Longrightarrow> length (hexOfNat n) \<le> m"
proof (induction n arbitrary: m rule: hexOfNat.induct)
  case (1 n)
  show ?case
  proof (cases "n < 16")
    case True
    with "1.prems" show ?thesis by (subst hexOfNat.simps) simp
  next
    case False
    with "1.prems" obtain k where m: "m = Suc k" by (cases m) auto
    from False "1.prems" m have "0 < k"
      by (cases k) auto
    moreover from "1.prems" m have "n div 16 < 16 ^ k"
      by (simp add: less_mult_imp_div_less mult.commute)
    ultimately have "length (hexOfNat (n div 16)) \<le> k"
      using "1.IH" False by simp
    with False m show ?thesis by (subst hexOfNat.simps) simp
  qed
qed

lemma uintHex_even: "even (length (uintHex n))"
  by (simp add: uintHex_def padEven_even)

lemma uintHex_nonempty: "uintHex n \<noteq> []"
  by (simp add: uintHex_def padEven_def hexOfNat_nonempty)

lemma uintHex_length_le:
  assumes "n < 16 ^ (2 * m)" "0 < m"
  shows "length (uintHex n) \<le> 2 * m"
proof -
  from assms have "length (hexOfNat n) \<le> 2 * m"
    by (intro hexOfNat_length) simp_all
  then show ?thesis
    by (auto simp: uintHex_def padEven_def) presburger
qed

lemma uintHex_byte: "n < 256 \<Longrightarrow> length (uintHex n) = 2"
proof -
  assume "n < 256"
  then have "length (uintHex n) \<le> 2"
    using uintHex_length_le [of n 1] by simp
  moreover have "0 < length (uintHex n)" by (simp add: uintHex_nonempty)
  moreover have "even (length (uintHex n))" by (rule uintHex_even)
  ultimately show ?thesis by presburger
qed

lemma byte_order_table:
  "\<forall>n\<in>set [0..<256]. js_str_less (uintHex n) ''80'' = (n < 128) \<and>
                        js_str_less (uintHex n) ''c0'' = (n < 192)"
  by code_simp

lemma byte_order:
  assumes "n < 256"
  shows "js_str_less (uintHex n) ''80'' = (n < 128)" "js_str_less (uintHex n) ''c0'' = (n < 192)"
proof -
  from assms have "n \<in> set [0..<256]" by simp
  with byte_order_table show "js_str_less (uintHex n) ''80'' = (n < 128)"
    "js_str_less (uintHex n) ''c0'' = (n < 192)" by blast+
qed

subsection \<open>Length prefixes\<close>

lemma uintHex_bytes:
  assumes "len < 256 ^ 8"
  shows "1 \<le> length (uintHex len) div 2" "length (uintHex len) div 2 \<le> 8"
proof -
  have "(256::nat) ^ 8 = 16 ^ (2 * 8)" by simp
  with assms have "length (uintHex len) \<le> 2 * 8"
    by (intro uintHex_length_le) simp_all
  then show "length (uintHex len) div 2 \<le> 8" by simp
  have "0 < length (uintHex len)" by (simp add: uintHex_nonempty)
  moreover have "even (length (uintHex len))" by (rule uintHex_even)
  ultimately show "1 \<le> length (uintHex len) div 2" by presburger
qed

lemma headByte_range:
  assumes "len < 256 ^ 8" "add = 128 \<or> add = 192"
  shows "add \<le> headByte len add" "headByte len add < add + 64" "headByte len add < 256"
  using assms uintHex_bytes [OF assms(1)] by (auto simp: headByte_def)

lemma lengthPrefix_head:
  "lengthPrefix len add = uintHex (headByte len add) @ (if len < 56 then [] else uintHex len)"
  by (simp add: lengthPrefix_def headByte_def)

lemma take2_lengthPrefix:
  assumes "len < 256 ^ 8" "add = 128 \<or> add = 192"
  shows "take 2 (lengthPrefix len add @ rest) = uintHex (headByte len add)"
    and "drop 2 (lengthPrefix len add @ rest) = (if len < 56 then [] else uintHex len) @ rest"
  using uintHex_byte [OF headByte_range(3) [OF assms]]
  by (simp_all add: lengthPrefix_head)

lemma mod64:
  "r < 64 \<Longrightarrow> (128 + r) mod 64 = (r::nat)" "r < 64 \<Longrightarrow> (192 + r) mod 64 = (r::nat)"
proof -
  assume r: "r < 64"
  have "128 + r = r + 2 * 64" "192 + r = r + 3 * 64" by simp_all
  then have "(128 + r) mod 64 = r mod 64" "(192 + r) mod 64 = r mod 64"
    by (simp_all only: mod_mult_self1)
  with r show "(128 + r) mod 64 = r" "(192 + r) mod 64 = r" by simp_all
qed

lemma parseLength_lengthPrefix:
  assumes "len < 256 ^ 8" "add = 128 \<or> add = 192"
  shows "parseLength (lengthPrefix len add @ rest) = (len, rest)"
proof (cases "len < 56")
  case True
  note t = take2_lengthPrefix [OF assms, of rest]
  from True have "(128 + len) mod 64 = len" "(192 + len) mod 64 = len"
    by (simp_all add: mod64)
  with True have "headByte len add mod 64 = len"
    using assms(2) by (auto simp: headByte_def)
  with True show ?thesis
    unfolding parseLength_def t by (simp add: parseInt16_uintHex)
next
  case False
  note t = take2_lengthPrefix [OF assms, of rest]
  let ?L = "length (uintHex len) div 2"
  from uintHex_bytes [OF assms(1)] have L: "1 \<le> ?L" "?L \<le> 8" .
  from L have "55 + ?L < 64" by simp
  then have "(128 + (55 + ?L)) mod 64 = 55 + ?L" "(192 + (55 + ?L)) mod 64 = 55 + ?L"
    by (rule mod64)+
  then have "(128 + ?L + 55) mod 64 = 55 + ?L" "(192 + ?L + 55) mod 64 = 55 + ?L"
    by (simp_all add: add.assoc add.commute)
  with False assms(2) have m: "headByte len add mod 64 = 55 + ?L"
    by (auto simp: headByte_def)
  have e: "?L * 2 = length (uintHex len)"
    using uintHex_even [of len] by simp
  from False m L e show ?thesis
    unfolding parseLength_def t by (simp add: parseInt16_uintHex)
qed

lemma lengthPrefix_even: "even (length (lengthPrefix len add))"
  by (simp add: lengthPrefix_def uintHex_even)

lemma lengthPrefix_length: "2 \<le> length (lengthPrefix len add)"
proof -
  have h: "2 \<le> length (uintHex n)" for n
  proof -
    have "0 < length (uintHex n)" by (simp add: uintHex_nonempty)
    moreover have "even (length (uintHex n))" by (rule uintHex_even)
    ultimately show ?thesis by presburger
  qed
  then show ?thesis
    by (simp add: lengthPrefix_def trans_le_add1)
qed

lemma head_string:
  assumes "len < 256 ^ 8"
  shows "\<not> js_str_less (take 2 (lengthPrefix len 128 @ rest)) ''80''"
    and "js_str_less (take 2 (lengthPrefix len 128 @ rest)) ''c0''"
proof -
  have t: "take 2 (lengthPrefix len 128 @ rest) = uintHex (headByte len 128)"
    using assms by (intro take2_lengthPrefix) simp_all
  from headByte_range [of len 128] assms
  have "128 \<le> headByte len 128" "headByte len 128 < 192" "headByte len 128 < 256"
    by simp_all
  then show "\<not> js_str_less (take 2 (lengthPrefix len 128 @ rest)) ''80''"
    and "js_str_less (take 2 (lengthPrefix len 128 @ rest)) ''c0''"
    unfolding t by (simp_all add: byte_order)
qed

lemma head_list:
  assumes "len < 256 ^ 8"
  shows "\<not> js_str_less (take 2 (lengthPrefix len 192 @ rest)) ''80''"
    and "\<not> js_str_less (take 2 (lengthPrefix len 192 @ rest)) ''c0''"
proof -
  have t: "take 2 (lengthPrefix len 192 @ rest) = uintHex (headByte len 192)"
    using assms by (intro take2_lengthPrefix) simp_all
  from headByte_range [of len 192] assms
  have "192 \<le> headByte len 192" "headByte len 192 < 256"
    by simp_all
  then show "\<not> js_str_less (take 2 (lengthPrefix len 192 @ rest)) ''80''"
    and "\<not> js_str_less (take 2 (lengthPrefix len 192 @ rest)) ''c0''"
    unfolding t by (simp_all add: byte_order)
qed

subsection \<open>One step of the parser\<close>

lemma parseTree_byte:
  "hex \<noteq> [] \<Longrightarrow> js_str_less (take 2 hex) ''80'' \<Longrightarrow>
   parseTree (Suc fuel) hex = Some (JStr (''0x'' @ take 2 hex), drop 2 hex)"
  by simp

lemma parseTree_string:
  "hex \<noteq> [] \<Longrightarrow> \<not> js_str_less (take 2 hex) ''80'' \<Longrightarrow> js_str_less (take 2 hex) ''c0'' \<Longrightarrow>
   parseLength hex = (len, r) \<Longrightarrow>
   parseTree (Suc fuel) hex = Some (JStr (''0x'' @ take (len * 2) r), drop (len * 2) r)"
  by simp

lemma parseTree_list:
  "hex \<noteq> [] \<Longrightarrow> \<not> js_str_less (take 2 hex) ''80'' \<Longrightarrow> \<not> js_str_less (take 2 hex) ''c0'' \<Longrightarrow>
   parseLength hex = (len, r) \<Longrightarrow> parseList fuel (length r - len * 2) r = Some (xs, r') \<Longrightarrow>
   parseTree (Suc fuel) hex = Some (JArr xs, r')"
  by simp

lemma parseList_done:
  "length hex \<le> lim \<Longrightarrow> parseList (Suc fuel) lim hex = Some ([], hex)"
  by simp

lemma parseList_more:
  "\<not> length hex \<le> lim \<Longrightarrow> parseTree fuel hex = Some (x, r) \<Longrightarrow>
   parseList fuel lim r = Some (xs, r') \<Longrightarrow> parseList (Suc fuel) lim hex = Some (x # xs, r')"
  by simp

subsection \<open>The encoding of a tree of byte strings\<close>

lemma concat_even:
  "(\<And>x. x \<in> set xs \<Longrightarrow> even (length (f x))) \<Longrightarrow> even (length (concat (map f xs)))"
  by (induction xs) simp_all

lemma dataTree_JArr:
  "dataTree (JArr xs) =
   lengthPrefix (length (concat (map dataTree xs)) div 2) 192 @ concat (map dataTree xs)"
  by (simp add: Let_def)

lemma dataTree_shape:
  "byteTree t \<Longrightarrow> even (length (dataTree t)) \<and> 2 \<le> length (dataTree t)"
proof (induction t)
  case (JStr s)
  let ?hex = "slice 2 s"
  from JStr have e: "even (length ?hex)" by simp
  show ?case
  proof (cases "length ?hex \<noteq> 2 \<or> \<not> js_str_less ?hex ''80''")
    case True
    then have "dataTree (JStr s) = lengthPrefix (length ?hex div 2) 128 @ ?hex"
      by (simp add: Let_def)
    with e lengthPrefix_even [of "length ?hex div 2" 128]
      lengthPrefix_length [of "length ?hex div 2" 128]
    show ?thesis by simp
  next
    case False
    then have "dataTree (JStr s) = ?hex" "length ?hex = 2"
      by (simp_all add: Let_def)
    then show ?thesis by simp
  qed
next
  case (JArr xs)
  then have "even (length (concat (map dataTree xs)))"
    by (intro concat_even) simp
  with lengthPrefix_even [of "length (concat (map dataTree xs)) div 2" 192]
    lengthPrefix_length [of "length (concat (map dataTree xs)) div 2" 192]
  show ?case unfolding dataTree_JArr by simp
qed simp_all

lemma member_length:
  "x \<in> set xs \<Longrightarrow> length (f x) \<le> length (concat (map f xs))"
  by (induction xs) auto

subsection \<open>Decoding what was encoded\<close>

lemma parse_leaf:
  assumes "byteTree (JStr s)" "length (dataTree (JStr s)) div 2 < 256 ^ 8"
  shows "parseTree (Suc fuel) (dataTree (JStr s) @ rest) = Some (JStr s, rest)"
proof -
  let ?hex = "slice 2 s"
  from assms(1) have p: "''0x'' @ ?hex = s" and e: "even (length ?hex)"
    by (simp_all add: prefix_slice)
  show ?thesis
  proof (cases "length ?hex \<noteq> 2 \<or> \<not> js_str_less ?hex ''80''")
    case False
    then have d: "dataTree (JStr s) = ?hex" and l: "length ?hex = 2"
      and b: "js_str_less ?hex ''80''"
      by (simp_all add: Let_def)
    from l have n: "?hex @ rest \<noteq> []" by auto
    from l have t: "take 2 (?hex @ rest) = ?hex" "drop 2 (?hex @ rest) = rest" by simp_all
    from b t have "js_str_less (take 2 (?hex @ rest)) ''80''" by simp
    from parseTree_byte [OF n this, of fuel] t p d show ?thesis by simp
  next
    case True
    let ?k = "length ?hex div 2"
    from True have d: "dataTree (JStr s) = lengthPrefix ?k 128 @ ?hex"
      by (simp add: Let_def)
    have "length ?hex \<le> length (dataTree (JStr s))" unfolding d by simp
    with assms(2) have k: "?k < 256 ^ 8"
      by (meson div_le_mono le_less_trans)
    have n: "lengthPrefix ?k 128 @ ?hex @ rest \<noteq> []"
      using lengthPrefix_length [of ?k 128] by auto
    from e have t: "take (?k * 2) (?hex @ rest) = ?hex" "drop (?k * 2) (?hex @ rest) = rest"
      by simp_all
    from parseTree_string [OF n head_string [OF k] parseLength_lengthPrefix [OF k], of fuel]
    have "parseTree (Suc fuel) (lengthPrefix ?k 128 @ ?hex @ rest) =
          Some (JStr (''0x'' @ take (?k * 2) (?hex @ rest)), drop (?k * 2) (?hex @ rest))"
      by simp
    with t p d show ?thesis by simp
  qed
qed

lemma parse_dataTree:
  "byteTree t \<Longrightarrow> length (dataTree t) div 2 < 256 ^ 8 \<Longrightarrow> length (dataTree t) \<le> fuel \<Longrightarrow>
   parseTree fuel (dataTree t @ rest) = Some (t, rest)"
proof (induction t arbitrary: fuel rest)
  case (JStr s)
  from dataTree_shape [OF JStr.prems(1)] JStr.prems(3) obtain f where "fuel = Suc f"
    by (cases fuel) auto
  with parse_leaf [OF JStr.prems(1,2)] show ?case by simp
next
  case (JArr xs)
  let ?pay = "\<lambda>ys. concat (map dataTree ys)"
  let ?k = "length (?pay xs) div 2"
  have d: "dataTree (JArr xs) = lengthPrefix ?k 192 @ ?pay xs"
    by (rule dataTree_JArr)
  from JArr.prems(1) have bt: "\<And>x. x \<in> set xs \<Longrightarrow> byteTree x" by simp
  have shape: "\<And>x. x \<in> set xs \<Longrightarrow> even (length (dataTree x)) \<and> 2 \<le> length (dataTree x)"
    using bt dataTree_shape by blast
  have total: "length (?pay xs) \<le> length (dataTree (JArr xs))" unfolding d by simp
  with JArr.prems(2) have k: "?k < 256 ^ 8"
    by (meson div_le_mono le_less_trans)
  have small: "length (dataTree x) div 2 < 256 ^ 8" if "x \<in> set xs" for x
  proof -
    from that have "length (dataTree x) \<le> length (?pay xs)" by (rule member_length)
    with total have "length (dataTree x) \<le> length (dataTree (JArr xs))" by simp
    with JArr.prems(2) show ?thesis by (meson div_le_mono le_less_trans)
  qed
  have items: "parseList f (length rest) (?pay ys @ rest) = Some (ys, rest)"
    if "set ys \<subseteq> set xs" "Suc (length (?pay ys)) \<le> f" for ys f
    using that
  proof (induction ys arbitrary: f)
    case Nil
    then obtain f' where "f = Suc f'" by (cases f) auto
    then show ?case by simp
  next
    case (Cons y ys)
    from Cons.prems obtain f' where f: "f = Suc f'"
      and f': "length (dataTree y) + length (?pay ys) \<le> f'"
      by (cases f) auto
    from Cons.prems(1) have y: "y \<in> set xs" and ys: "set ys \<subseteq> set xs" by simp_all
    from shape [OF y] have ly: "2 \<le> length (dataTree y)" by simp
    from ly have more: "\<not> length (dataTree y @ ?pay ys @ rest) \<le> length rest"
      by (simp only: length_append)
    from f' have "length (dataTree y) \<le> f'" by simp
    from JArr.IH [OF y bt [OF y] small [OF y] this]
    have one: "parseTree f' (dataTree y @ ?pay ys @ rest) = Some (y, ?pay ys @ rest)" .
    from f' ly have "Suc (length (?pay ys)) \<le> f'" by simp
    from Cons.IH [OF ys this]
    have rest: "parseList f' (length rest) (?pay ys @ rest) = Some (ys, rest)" .
    from parseList_more [OF more one rest] f show ?case by simp
  qed
  have lp: "2 \<le> length (lengthPrefix ?k 192)" by (rule lengthPrefix_length)
  with JArr.prems(3) obtain f where f: "fuel = Suc f" and f': "Suc (length (?pay xs)) \<le> f"
    unfolding d by (cases fuel) auto
  have n: "lengthPrefix ?k 192 @ ?pay xs @ rest \<noteq> []"
    using lp by auto
  have "even (length (?pay xs))"
    using shape by (intro concat_even) simp
  then have lim: "length (?pay xs @ rest) - ?k * 2 = length rest" by simp
  from items [OF subset_refl f']
  have "parseList f (length (?pay xs @ rest) - ?k * 2) (?pay xs @ rest) = Some (xs, rest)"
    unfolding lim .
  from parseTree_list [OF n head_list [OF k] parseLength_lengthPrefix [OF k] this]
  show ?case unfolding d f by simp
qed simp_all

lemma ref_decode_encode:
  assumes "byteTree t" "length (ref_encode t) < 2 ^ 53"
  shows "ref_decode (ref_encode t) = t"
proof -
  have "(2::nat) ^ 53 \<le> 256 ^ 8" by simp
  with assms(2) have "length (dataTree t) < 256 ^ 8"
    by (simp add: ref_encode_def)
  then have "length (dataTree t) div 2 < 256 ^ 8"
    by (meson div_le_dividend le_less_trans)
  from parse_dataTree [OF assms(1) this, of "length (ref_encode t)" "[]"]
  show ?thesis
    by (simp add: ref_decode_def ref_encode_def slice_def)
qed

section \<open>Round trip of a transaction\<close>

text \<open>
  Two constructed, filled and signed instances that do not survive the round trip: one
  with an input of three hex digits, one with a recovery id of one hex digit. Each is
  encoded, and the decoding of the encoding fails.
\<close>
theorem decode_getRLPEncoding_roundtrip_counterexample:
  "ChainDataAnchoring refEnv (Obj objOddInput) = Inr txOddInput \<and>
   validTransaction txOddInput \<and>
   tx_input txOddInput = Some ''0xabc'' \<and>
   getRLPEncoding refEnv txOddInput =
     Inr ''0x48ed018505d21dba00830f424094a94f5374fce5edbc8e2a8697c15331677e6ebf0b81abccac9820fe9821234820abc'' \<and>
   decode refEnv
     ''0x48ed018505d21dba00830f424094a94f5374fce5edbc8e2a8697c15331677e6ebf0b81abccac9820fe9821234820abc'' =
     Inl InvalidSignatureFormatError \<and>
   ChainDataAnchoring refEnv (Obj objOddSignature) = Inr txOddSignature \<and>
   validTransaction txOddSignature \<and>
   getRLPEncoding refEnv txOddSignature =
     Inr ''0x48ed018505d21dba00830f424094a94f5374fce5edbc8e2a8697c15331677e6ebf0b83f8a6a0c8c7801821234820abc'' \<and>
   decode refEnv
     ''0x48ed018505d21dba00830f424094a94f5374fce5edbc8e2a8697c15331677e6ebf0b83f8a6a0c8c7801821234820abc'' =
     Inl InvalidSignatureFormatError"
  by code_simp

subsection \<open>The field list of a transaction of whole bytes\<close>

lemma byteTree_canonical: "canonicalInt h \<Longrightarrow> byteTree (JStr h)"
  by (simp add: canonicalInt_def)

lemma byteTree_address: "isAddress (JStr a) \<Longrightarrow> byteTree (JStr a)"
  by (simp add: isAddress_def slice_def)

lemma byteTree_hex: "isHex (JStr h) \<Longrightarrow> wholeBytes h \<Longrightarrow> byteTree (JStr h)"
  by (simp add: wholeBytes_def)

lemma byteTree_signature:
  "validSignature sg \<Longrightarrow> wholeByteSignature sg \<Longrightarrow> byteTree (sig_encode sg)"
  by (simp add: validSignature_def wholeByteSignature_def sig_encode_def wholeBytes_def)

lemma byteTree_signatures:
  "list_all validSignature sgs \<Longrightarrow> list_all wholeByteSignature sgs \<Longrightarrow>
   byteTree (JArr (map sig_encode sgs))"
  by (induction sgs) (simp_all add: byteTree_signature del: byteTree.simps(1))

lemma ref_roundTrips:
  assumes "RLP_encode E = ref_encode" "RLP_decode E = ref_decode"
    and "byteTree t" "length (ref_encode t) < 2 ^ 53"
  shows "roundTrips E t"
  using assms ref_decode_encode [OF assms(3,4)]
  by (simp add: roundTrips_def ref_encode_def)

text \<open>
  C1, as the code has it. Let \<open>tx\<close> be an instance as the constructor and the setters
  leave it, with nonce, gas price, gas, chain id and sender set, whose input and
  signature components are whole bytes (an even number of hex digits). With the
  reference codec, a tag of the hex prefix and one byte, and an encoding no longer than a
  JavaScript string can be, \<^verbatim>\<open>getRLPEncoding\<close> returns a string, \<^verbatim>\<open>decode\<close> of that
  string returns an instance, and its nonce, gas price, gas, sender, input and signature
  list (in the same order) are those of \<open>tx\<close>.
\<close>
theorem decode_getRLPEncoding_roundtrip:
  assumes "validTransaction tx"
    and "tx_nonce tx = Some n" "tx_gasPrice tx = Some p" "tx_gas tx = Some g"
      "tx_chainId tx = Some c" "tx_from tx = Some a" "tx_input tx = Some i"
    and "wholeBytes i" "list_all wholeByteSignature (tx_signatures tx)"
    and "startsWith (TxTypeChainDataAnchoring E) ''0x''" "length (TxTypeChainDataAnchoring E) = 4"
    and "RLP_encode E = ref_encode" "RLP_decode E = ref_decode"
    and "length (RLP_encode E
           (JArr [JStr (fromNat n), JStr (fromNat p), JStr (fromNat g), JStr (toLowerCase a),
                  JStr i, JArr (map sig_encode (tx_signatures tx))])) < 2 ^ 53"
  shows "\<exists>raw tx'. getRLPEncoding E tx = Inr raw \<and> decode E raw = Inr tx' \<and>
           tx_nonce tx' = tx_nonce tx \<and> tx_gasPrice tx' = tx_gasPrice tx \<and>
           tx_gas tx' = tx_gas tx \<and> tx_from tx' = tx_from tx \<and> tx_input tx' = tx_input tx \<and>
           tx_signatures tx' = tx_signatures tx"
proof -
  from assms(1-7) have can: "canonicalInt n" "canonicalInt p" "canonicalInt g"
    and adr: "isAddress (JStr a)" "toLowerCase a = a"
    and hex: "isHex (JStr i)"
    and sgs: "list_all validSignature (tx_signatures tx)"
    by (simp_all add: validTransaction_def canonicalField_def del: isHex.simps)
  let ?l = "JArr [JStr (fromNat n), JStr (fromNat p), JStr (fromNat g), JStr (toLowerCase a),
                  JStr i, JArr (map sig_encode (tx_signatures tx))]"
  have "byteTree (JStr (fromNat n))" "byteTree (JStr (fromNat p))" "byteTree (JStr (fromNat g))"
    using can by (simp_all add: fromNat_fix byteTree_canonical del: byteTree.simps)
  moreover have "byteTree (JStr (toLowerCase a))"
    using adr by (simp add: byteTree_address del: byteTree.simps)
  moreover have "byteTree (JStr i)"
    using hex assms(8) by (rule byteTree_hex)
  moreover have "byteTree (JArr (map sig_encode (tx_signatures tx)))"
    using sgs assms(9) by (rule byteTree_signatures)
  ultimately have "byteTree ?l" by simp
  moreover from assms(12,14) have "length (ref_encode ?l) < 2 ^ 53" by simp
  ultimately have "roundTrips E ?l"
    using assms(12,13) by (intro ref_roundTrips)
  then have "roundTrips E
           (JArr [JStr (fromNat n), JStr (fromNat p), JStr (fromNat g), JStr (toLowerCase a),
                  js_field (tx_input tx), JArr (map sig_encode (tx_signatures tx))])"
    using assms(7) by simp
  from roundtrip_given_codec [OF assms(1-6,10,11) this]
  show ?thesis .
qed

lemma txSigned_encoded:
  "RLP_encode refEnv
     (JArr [JStr (fromNat ''0x01''), JStr (fromNat ''0x05d21dba00''), JStr (fromNat ''0x0f4240''),
            JStr (toLowerCase ''0xa94f5374fce5edbc8e2a8697c15331677e6ebf0b''),
            JStr ''0xf8a6a0'', JArr (map sig_encode (tx_signatures txSigned))]) =
   ''0xef018505d21dba00830f424094a94f5374fce5edbc8e2a8697c15331677e6ebf0b83f8a6a0cac9820fe9821234820abc''"
  by code_simp

theorem decode_getRLPEncoding_roundtrip_witness:
  "validTransaction txSigned \<and> wholeBytes ''0xf8a6a0'' \<and>
   list_all wholeByteSignature (tx_signatures txSigned) \<and>
   startsWith (TxTypeChainDataAnchoring refEnv) ''0x'' \<and>
   length (TxTypeChainDataAnchoring refEnv) = 4 \<and>
   RLP_encode refEnv = ref_encode \<and> RLP_decode refEnv = ref_decode \<and>
   (\<exists>raw tx'. getRLPEncoding refEnv txSigned = Inr raw \<and> decode refEnv raw = Inr tx' \<and>
      tx_nonce tx' = Some ''0x01'' \<and> tx_gasPrice tx' = Some ''0x05d21dba00'' \<and>
      tx_gas tx' = Some ''0x0f4240'' \<and>
      tx_from tx' = Some ''0xa94f5374fce5edbc8e2a8697c15331677e6ebf0b'' \<and>
      tx_input tx' = Some ''0xf8a6a0'' \<and>
      tx_signatures tx' = [\<lparr> sig_v = ''0x0fe9'', sig_r = ''0x1234'', sig_s = ''0x0abc'' \<rparr>])"
proof -
  have f: "tx_nonce txSigned = Some ''0x01''" "tx_gasPrice txSigned = Some ''0x05d21dba00''"
    "tx_gas txSigned = Some ''0x0f4240''" "tx_chainId txSigned = Some ''0x07e3''"
    "tx_from txSigned = Some ''0xa94f5374fce5edbc8e2a8697c15331677e6ebf0b''"
    "tx_input txSigned = Some ''0xf8a6a0''"
    by (simp_all add: txSigned_def)
  have w: "wholeBytes ''0xf8a6a0''" "list_all wholeByteSignature (tx_signatures txSigned)"
    by (simp_all add: wholeBytes_def wholeByteSignature_def slice_def txSigned_def)
  have t: "startsWith (TxTypeChainDataAnchoring refEnv) ''0x''"
    "length (TxTypeChainDataAnchoring refEnv) = 4"
    by (simp_all add: refEnv_def startsWith_def)
  have c: "RLP_encode refEnv = ref_encode" "RLP_decode refEnv = ref_decode"
    by (simp_all add: refEnv_def)
  have l: "length (RLP_encode refEnv
     (JArr [JStr (fromNat ''0x01''), JStr (fromNat ''0x05d21dba00''), JStr (fromNat ''0x0f4240''),
            JStr (toLowerCase ''0xa94f5374fce5edbc8e2a8697c15331677e6ebf0b''),
            JStr ''0xf8a6a0'', JArr (map sig_encode (tx_signatures txSigned))])) < 2 ^ 53"
    unfolding txSigned_encoded by simp
  from decode_getRLPEncoding_roundtrip [OF txSigned_valid f w t c l]
  obtain raw tx' where "getRLPEncoding refEnv txSigned = Inr raw" "decode refEnv raw = Inr tx'"
    "tx_nonce tx' = tx_nonce txSigned" "tx_gasPrice tx' = tx_gasPrice txSigned"
    "tx_gas tx' = tx_gas txSigned" "tx_from tx' = tx_from txSigned"
    "tx_input tx' = tx_input txSigned" "tx_signatures tx' = tx_signatures txSigned"
    by blast
  then have "\<exists>raw tx'. getRLPEncoding refEnv txSigned = Inr raw \<and> decode refEnv raw = Inr tx' \<and>
      tx_nonce tx' = Some ''0x01'' \<and> tx_gasPrice tx' = Some ''0x05d21dba00'' \<and>
      tx_gas tx' = Some ''0x0f4240'' \<and>
      tx_from tx' = Some ''0xa94f5374fce5edbc8e2a8697c15331677e6ebf0b'' \<and>
      tx_input tx' = Some ''0xf8a6a0'' \<and>
      tx_signatures tx' = [\<lparr> sig_v = ''0x0fe9'', sig_r = ''0x1234'', sig_s = ''0x0abc'' \<rparr>]"
    by (simp add: txSigned_def)
  with txSigned_valid w t c show ?thesis by blast
qed

end
